theory Spec2Isabelle
  imports Main "HOL-Library.List_Lexorder"
begin

section \<open>Text: Python \<open>str\<close> as a list of code points\<close>

text \<open>
  The checker (\<open>scripts/qa_today_only_check.py\<close>) works on Python \<open>str\<close> values, which
  are sequences of Unicode code points. A code point is a natural number and a string of
  the script is a list of them, so \<open>length\<close> is Python's \<open>len\<close>. The literals of the script that are plain
  ASCII are written \<open>lit ''...''\<close>; the two dashes outside ASCII that the script prints
  are given by number.
\<close>

type_synonym codepoint = nat
type_synonym str = "codepoint list"

definition lit :: "string \<Rightarrow> str" where
  "lit s = map of_char s"

definition EN_DASH :: codepoint where
  "EN_DASH = 8211"

definition EM_DASH :: codepoint where
  "EM_DASH = 8212"

text \<open>\<open>str.isspace\<close> of one code point; \<open>\s\<close> of \<open>re\<close> on \<open>str\<close> patterns is the same set.\<close>

definition isspace :: "codepoint \<Rightarrow> bool" where
  "isspace c = (c \<in> set [9, 10, 11, 12, 13, 28, 29, 30, 31, 32, 133, 160, 5760,
                           8192, 8193, 8194, 8195, 8196, 8197, 8198, 8199, 8200, 8201, 8202,
                           8232, 8233, 8239, 8287, 12288])"

text \<open>\<open>s.strip()\<close>: whitespace removed at both ends.\<close>

definition strip :: "str \<Rightarrow> str" where
  "strip s = rev (dropWhile isspace (rev (dropWhile isspace s)))"

text \<open>\<open>s.startswith(p)\<close>.\<close>

fun startswith :: "str \<Rightarrow> str \<Rightarrow> bool" where
  "startswith s [] = True"
| "startswith [] (p # ps) = False"
| "startswith (c # cs) (p # ps) = (c = p \<and> startswith cs ps)"

text \<open>\<open>needle in hay\<close> for two \<open>str\<close> values: \<open>needle\<close> occurs as a contiguous piece.\<close>

fun contains :: "str \<Rightarrow> str \<Rightarrow> bool" where
  "contains [] needle = (needle = [])"
| "contains (c # cs) needle = (startswith (c # cs) needle \<or> contains cs needle)"

text \<open>\<open>sep.join(parts)\<close>.\<close>

fun join :: "str \<Rightarrow> str list \<Rightarrow> str" where
  "join sep [] = []"
| "join sep [x] = x"
| "join sep (x # y # ys) = x @ sep @ join sep (y # ys)"

text \<open>\<open>s.ljust(w)\<close>: padded with spaces on the right up to width \<open>w\<close>, never cut.\<close>

definition ljust :: "str \<Rightarrow> nat \<Rightarrow> str" where
  "ljust s w = s @ replicate (w - length s) 32"

text \<open>
  \<open>s.lower()\<close>. Below U+0100 the capital letters of ASCII and Latin-1 go to their small
  letters. From U+0100 on, the two code points whose lower case has an ASCII letter are
  mapped as Python maps them: the Kelvin sign U+212A to \<open>k\<close>, and U+0130 to \<open>i\<close> followed
  by U+0307. The other code points from U+0100 on are left as they are: Python maps the
  cased ones among them to code points that again are neither ASCII nor whitespace, so
  whether the lower-cased text equals or contains an ASCII string, and where its
  whitespace stands, is the same.
\<close>

definition lower_cp :: "codepoint \<Rightarrow> str" where
  "lower_cp c =
     (if c = 304 then [105, 775]
      else if c = 8490 then [107]
      else if (65 \<le> c \<and> c \<le> 90) \<or> (192 \<le> c \<and> c \<le> 222 \<and> c \<noteq> 215) then [c + 32]
      else [c])"

definition lower :: "str \<Rightarrow> str" where
  "lower s = concat (map lower_cp s)"

text \<open>
  \<open>s.splitlines()\<close>: the line boundaries of \<open>str.splitlines\<close>, \<open>\r\n\<close> counted once, no
  empty last line after a final boundary. \<open>cur\<close> holds the current line, reversed.
\<close>

definition is_linebreak :: "codepoint \<Rightarrow> bool" where
  "is_linebreak c = (c \<in> set [10, 11, 12, 13, 28, 29, 30, 133, 8232, 8233])"

fun splitlines_from :: "str \<Rightarrow> str \<Rightarrow> str list" where
  "splitlines_from cur [] = (if cur = [] then [] else [rev cur])"
| "splitlines_from cur [c] =
     (if is_linebreak c then [rev cur] else [rev (c # cur)])"
| "splitlines_from cur (c # d # cs) =
     (if c = 13 \<and> d = 10 then rev cur # splitlines_from [] cs
      else if is_linebreak c then rev cur # splitlines_from [] (d # cs)
      else splitlines_from (c # cur) (d # cs))"

definition splitlines :: "str \<Rightarrow> str list" where
  "splitlines s = splitlines_from [] s"

text \<open>\<open>s.split(sep)[0]\<close> for a non-empty \<open>sep\<close>: what stands before its first occurrence.\<close>

fun split_first :: "str \<Rightarrow> str \<Rightarrow> str" where
  "split_first sep [] = []"
| "split_first sep (c # cs) =
     (if startswith (c # cs) sep then [] else c # split_first sep cs)"

text \<open>\<open>s.split()\<close>: the maximal runs without whitespace.\<close>

fun split_where :: "(codepoint \<Rightarrow> bool) \<Rightarrow> str \<Rightarrow> str list" where
  "split_where p [] = [[]]"
| "split_where p (c # cs) =
     (if p c then [] # split_where p cs
      else (case split_where p cs of [] \<Rightarrow> [[c]] | w # ws \<Rightarrow> (c # w) # ws))"

definition split_ws :: "str \<Rightarrow> str list" where
  "split_ws s = filter (\<lambda>w. w \<noteq> []) (split_where isspace s)"

text \<open>\<open>str(n)\<close> for a count.\<close>

fun str_nat :: "nat \<Rightarrow> str" where
  "str_nat n = (if n < 10 then [48 + n] else str_nat (n div 10) @ [48 + n mod 10])"

declare str_nat.simps [simp del]

text \<open>
  \<open>repr\<close> of a \<open>str\<close> and of a list of them, as an f-string prints a list. It is applied
  to the catalog's patterns only, which are printable ASCII: the quote is \<open>"\<close> (34) when the
  string has a \<open>'\<close> (39) and no \<open>"\<close>, else \<open>'\<close>; the quote and the backslash (92) are
  escaped.
\<close>

definition repr_quote :: "str \<Rightarrow> codepoint" where
  "repr_quote s = (if 39 \<in> set s \<and> 34 \<notin> set s then 34 else 39)"

fun repr_body :: "codepoint \<Rightarrow> str \<Rightarrow> str" where
  "repr_body q [] = []"
| "repr_body q (c # cs) = (if c = q \<or> c = 92 then 92 # c # repr_body q cs else c # repr_body q cs)"

definition repr_str :: "str \<Rightarrow> str" where
  "repr_str s = (let q = repr_quote s in q # repr_body q s @ [q])"

definition repr_list :: "str list \<Rightarrow> str" where
  "repr_list xs = lit ''['' @ join (lit '', '') (map repr_str xs) @ lit '']''"

section \<open>Regular expressions\<close>

text \<open>
  The patterns of the catalog use literal characters, \<open>.\<close>, \<open>\s\<close>, a character class,
  concatenation, \<open>|\<close>, \<open>*\<close> and \<open>?\<close> (\<open>r?\<close> is \<open>Alt r Eps\<close>); none has an anchor, so
  \<open>re.MULTILINE\<close> changes nothing. \<open>Nothing\<close> matches no string; it only arises in
  derivatives. \<open>ic\<close> is \<open>re.IGNORECASE\<close>.
\<close>

datatype rx =
    Nothing
  | Eps
  | Sym codepoint
  | Dot
  | OneOf "codepoint list"
  | Space
  | Seq rx rx
  | Alt rx rx
  | Star rx

text \<open>
  The code points a pattern character stands for under \<open>re.IGNORECASE\<close>: both cases of
  an ASCII letter, and the letters \<open>re\<close> treats as the same as \<open>i\<close>, \<open>s\<close> and \<open>k\<close>.
\<close>

definition ic_variants :: "codepoint \<Rightarrow> codepoint list" where
  "ic_variants p =
     (if 65 \<le> p \<and> p \<le> 90 then [p, p + 32]
      else if 97 \<le> p \<and> p \<le> 122 then [p, p - 32]
      else [p]) @
     (if p = 105 \<or> p = 73 then [304, 305]
      else if p = 115 \<or> p = 83 then [383]
      else if p = 107 \<or> p = 75 then [8490]
      else [])"

definition sym_match :: "bool \<Rightarrow> codepoint \<Rightarrow> codepoint \<Rightarrow> bool" where
  "sym_match ic p c = (if ic then c \<in> set (ic_variants p) else c = p)"

fun nullable :: "rx \<Rightarrow> bool" where
  "nullable Nothing = False"
| "nullable Eps = True"
| "nullable (Sym p) = False"
| "nullable Dot = False"
| "nullable (OneOf ps) = False"
| "nullable Space = False"
| "nullable (Seq r s) = (nullable r \<and> nullable s)"
| "nullable (Alt r s) = (nullable r \<or> nullable s)"
| "nullable (Star r) = True"

fun seq :: "rx \<Rightarrow> rx \<Rightarrow> rx" where
  "seq Nothing s = Nothing"
| "seq Eps s = s"
| "seq r s = Seq r s"

fun alt :: "rx \<Rightarrow> rx \<Rightarrow> rx" where
  "alt Nothing s = s"
| "alt r Nothing = r"
| "alt r s = Alt r s"

text \<open>What is left of \<open>r\<close> after reading the code point \<open>c\<close>.\<close>

fun deriv :: "bool \<Rightarrow> codepoint \<Rightarrow> rx \<Rightarrow> rx" where
  "deriv ic c Nothing = Nothing"
| "deriv ic c Eps = Nothing"
| "deriv ic c (Sym p) = (if sym_match ic p c then Eps else Nothing)"
| "deriv ic c Dot = (if c = 10 then Nothing else Eps)"
| "deriv ic c (OneOf ps) = (if list_ex (\<lambda>p. sym_match ic p c) ps then Eps else Nothing)"
| "deriv ic c Space = (if isspace c then Eps else Nothing)"
| "deriv ic c (Seq r s) =
     (if nullable r then alt (seq (deriv ic c r) s) (deriv ic c s)
      else seq (deriv ic c r) s)"
| "deriv ic c (Alt r s) = alt (deriv ic c r) (deriv ic c s)"
| "deriv ic c (Star r) = seq (deriv ic c r) (Star r)"

text \<open>\<open>re.match\<close>: a match that starts at the first position. \<open>re.search\<close>: at any.\<close>

fun re_match :: "bool \<Rightarrow> rx \<Rightarrow> str \<Rightarrow> bool" where
  "re_match ic r [] = nullable r"
| "re_match ic r (c # cs) = (nullable r \<or> re_match ic (deriv ic c r) cs)"

fun re_search :: "bool \<Rightarrow> rx \<Rightarrow> str \<Rightarrow> bool" where
  "re_search ic r [] = nullable r"
| "re_search ic r (c # cs) = (re_match ic r (c # cs) \<or> re_search ic r cs)"

text \<open>The pattern that matches exactly the string \<open>s\<close>.\<close>

fun lits :: "str \<Rightarrow> rx" where
  "lits [] = Eps"
| "lits [c] = Sym c"
| "lits (c # d # cs) = Seq (Sym c) (lits (d # cs))"

text \<open>
  The strings a pattern matches, as \<open>re\<close> documents them; \<open>re_match\<close> and \<open>re_search\<close> are
  proved against this below.
\<close>

inductive matches :: "bool \<Rightarrow> rx \<Rightarrow> str \<Rightarrow> bool" where
  m_eps: "matches ic Eps []"
| m_sym: "sym_match ic p c \<Longrightarrow> matches ic (Sym p) [c]"
| m_dot: "c \<noteq> 10 \<Longrightarrow> matches ic Dot [c]"
| m_oneof: "list_ex (\<lambda>p. sym_match ic p c) ps \<Longrightarrow> matches ic (OneOf ps) [c]"
| m_space: "isspace c \<Longrightarrow> matches ic Space [c]"
| m_seq: "matches ic r u \<Longrightarrow> matches ic s v \<Longrightarrow> matches ic (Seq r s) (u @ v)"
| m_alt1: "matches ic r u \<Longrightarrow> matches ic (Alt r s) u"
| m_alt2: "matches ic s u \<Longrightarrow> matches ic (Alt r s) u"
| m_star0: "matches ic (Star r) []"
| m_star1: "matches ic r u \<Longrightarrow> matches ic (Star r) v \<Longrightarrow> matches ic (Star r) (u @ v)"

text \<open>
  A pattern of the catalog: its source text, which the reports print, and the expression
  the source text denotes.
\<close>

type_synonym pattern = "str \<times> rx"

section \<open>Findings and the environment\<close>

text \<open>
  A finding is the tuple \<open>(label, status, detail)\<close> the evaluators append; the three
  statuses are the module's string constants.
\<close>

type_synonym finding = "str \<times> str \<times> str"

definition PASS :: str where
  "PASS = lit ''PASS''"

definition FAIL :: str where
  "FAIL = lit ''FAIL''"

definition WARN :: str where
  "WARN = lit ''WARN''"

definition label_of :: "finding \<Rightarrow> str" where
  "label_of r = fst r"

definition status_of :: "finding \<Rightarrow> str" where
  "status_of r = fst (snd r)"

definition detail_of :: "finding \<Rightarrow> str" where
  "detail_of r = snd (snd r)"

text \<open>
  \<open>Slash root rel\<close> is the \<open>pathlib\<close> path \<open>root / rel\<close>. What the script reads from
  outside is the environment: which paths exist, what \<open>Path.read_text\<close> returns under
  an encoding (\<open>None\<close> when it raises), and the two optional modules. \<open>nbformat\<close> and
  \<open>pd\<close> are \<open>None\<close> when the import failed; a reader returns \<open>Inl\<close> of the exception's
  message when it raises.
\<close>

datatype path = Slash str str

datatype encoding = UTF8 | Latin1

record "output" =
  data :: "(str \<rightharpoonup> str) option"

record cell =
  cell_type :: "str option"
  source :: "str option"
  outputs :: "output list option"

type_synonym notebook = "cell list"

record env =
  exists :: "path \<Rightarrow> bool"
  read_text :: "path \<Rightarrow> encoding \<Rightarrow> str option"
  nbformat :: "(path \<Rightarrow> str + notebook) option"
  pd :: "(path \<Rightarrow> str \<Rightarrow> str + nat \<times> nat) option"

section \<open>The catalog\<close>

definition REQUIRED_FILES :: "str list" where
  "REQUIRED_FILES =
     [lit ''notebooks/01_problem_framing.ipynb'',
      lit ''notebooks/02_data_understanding.ipynb'',
      lit ''data/winequality-red.csv'',
      lit ''data/winequality-white.csv'',
      lit ''README.md'',
      lit ''requirements.txt'',
      lit ''.gitignore'']"

text \<open>
  In the pattern sources, 92 is the backslash, 34 the double quote and 39 the single
  quote. \<open>cat\<close> chains expressions.
\<close>

fun cat :: "rx list \<Rightarrow> rx" where
  "cat [] = Eps"
| "cat [r] = r"
| "cat (r # r' # rs) = Seq r (cat (r' # rs))"

definition GITIGNORE_REQUIRED_PATTERNS :: "pattern list" where
  "GITIGNORE_REQUIRED_PATTERNS =
     [(92 # lit ''.ipynb_checkpoints/'', lits (lit ''.ipynb_checkpoints/'')),
      (lit ''venv/'', lits (lit ''venv/'')),
      (lit ''__pycache__/'', lits (lit ''__pycache__/'')),
      (lit ''results/'', lits (lit ''results/'')),
      (lit ''notebooks/03_.*'', Seq (lits (lit ''notebooks/03_'')) (Star Dot)),
      (lit ''notebooks/04_.*'', Seq (lits (lit ''notebooks/04_'')) (Star Dot)),
      (lit ''notebooks/05_.*'', Seq (lits (lit ''notebooks/05_'')) (Star Dot))]"

definition REQUIREMENTS_MIN :: "str set" where
  "REQUIREMENTS_MIN =
     {lit ''pandas'', lit ''numpy'', lit ''scikit-learn'', lit ''matplotlib'', lit ''seaborn''}"

definition SKLEARN_CLASS_NAMES :: "str list" where
  "SKLEARN_CLASS_NAMES =
     [lit ''LogisticRegression'', lit ''RandomForest'', lit ''RandomForestClassifier'',
      lit ''GradientBoosting'', lit ''GradientBoostingClassifier'', lit ''SVC'',
      lit ''KNeighborsClassifier'', lit ''XGBClassifier'', lit ''DecisionTreeClassifier'',
      lit ''GaussianNB'', lit ''BernoulliNB'', lit ''MultinomialNB'', lit ''LinearSVC'',
      lit ''LinearDiscriminantAnalysis'', lit ''QuadraticDiscriminantAnalysis'']"

text \<open>The pattern lists that \<open>check_nb01\<close> and \<open>check_nb02\<close> hold in local variables.\<close>

definition must_text :: "pattern list" where
  "must_text =
     [(lit ''Wine Classification'', lits (lit ''Wine Classification'')),
      (lit ''Problem Framing'', lits (lit ''Problem Framing'')),
      (lit ''UCI.*Wine Quality|Wine Quality.*UCI'',
       Alt (cat [lits (lit ''UCI''), Star Dot, lits (lit ''Wine Quality'')])
           (cat [lits (lit ''Wine Quality''), Star Dot, lits (lit ''UCI'')])),
      (lit ''red'' @ 92 # lit ''s*vs'' @ 92 # lit ''.?'' @ 92 # lit ''s*white|red.*white'',
       Alt (cat [lits (lit ''red''), Star Space, lits (lit ''vs''), Alt (Sym 46) Eps,
                 Star Space, lits (lit ''white'')])
           (cat [lits (lit ''red''), Star Dot, lits (lit ''white'')])),
      (lit ''stakeholder|impact|ethic|sustainab'',
       Alt (lits (lit ''stakeholder''))
           (Alt (lits (lit ''impact'')) (Alt (lits (lit ''ethic'')) (lits (lit ''sustainab'')))))]"

definition repro_hints :: "pattern list" where
  "repro_hints =
     [(lit ''__version__'', lits (lit ''__version__'')),
      (lit ''random_state'' @ 92 # lit ''s*='' @ 92 # lit ''s*42'',
       cat [lits (lit ''random_state''), Star Space, Sym 61, Star Space, lits (lit ''42'')])]"

definition must_code :: "pattern list" where
  "must_code =
     [(lit ''read_csv'', lits (lit ''read_csv'')),
      (lit ''sep'' @ 92 # lit ''s*='' @ 92 # lit ''s*['' @ [92, 34, 39] @ lit '']'' @ 92 # lit '';[''
         @ [92, 34, 39] @ lit '']'',
       cat [lits (lit ''sep''), Star Space, Sym 61, Star Space, OneOf [34, 39], Sym 59,
            OneOf [34, 39]]),
      (lit ''(?:'' @ 92 # lit ''['' @ 39 # lit ''type'' @ 39 # 92 # lit '']|type)'' @ 92 # lit ''s*='',
       cat [Alt (lits (lit ''['' @ 39 # lit ''type'' @ 39 # lit '']'')) (lits (lit ''type'')),
            Star Space, Sym 61]),
      (lit ''concat'' @ 92 # lit ''('', lits (lit ''concat(''))]"

definition class_vis_hints :: "pattern list" where
  "class_vis_hints =
     [(lit ''value_counts'' @ 92 # lit ''('', lits (lit ''value_counts('')),
      (lit ''countplot'', lits (lit ''countplot'')),
      (lit ''barh?'' @ 92 # lit ''('', cat [lits (lit ''bar''), Alt (Sym 104) Eps, Sym 40]),
      (lit ''plot'' @ 92 # lit ''('', lits (lit ''plot('')),
      (lit ''hist'' @ 92 # lit ''('', lits (lit ''hist(''))]"

text \<open>The pattern \<open>\.fit\s*\(\<close> of the training check.\<close>

definition FIT_CALL :: rx where
  "FIT_CALL = cat [lits (lit ''.fit''), Star Space, Sym 40]"

section \<open>Reading text\<close>

text \<open>\<open>load_text\<close>: UTF-8 first, Latin-1 when that raises, the empty string when both do.\<close>

definition load_text :: "env \<Rightarrow> path \<Rightarrow> str" where
  "load_text e p =
     (case read_text e p UTF8 of
        Some t \<Rightarrow> t
      | None \<Rightarrow> (case read_text e p Latin1 of Some t \<Rightarrow> t | None \<Rightarrow> []))"

section \<open>Artifact existence\<close>

text \<open>The \<open>for rel in REQUIRED_FILES\<close> loop of \<open>check_files_exist\<close>, \<open>results\<close> threaded.\<close>

fun check_files_exist_loop :: "env \<Rightarrow> str \<Rightarrow> str list \<Rightarrow> finding list \<Rightarrow> finding list" where
  "check_files_exist_loop e root [] results = results"
| "check_files_exist_loop e root (rel # rest) results =
     (let p = Slash root rel;
          ok = exists e p
      in check_files_exist_loop e root rest
           (results @ [(lit ''Exists: '' @ rel,
                        if ok then PASS else FAIL,
                        if ok then [] else lit ''Missing '' @ rel)]))"

definition check_files_exist :: "env \<Rightarrow> str \<Rightarrow> finding list" where
  "check_files_exist e root = check_files_exist_loop e root REQUIRED_FILES []"

text \<open>The finding the loop appends for one catalog path.\<close>

definition exists_finding :: "env \<Rightarrow> str \<Rightarrow> str \<Rightarrow> finding" where
  "exists_finding e root rel =
     (if exists e (Slash root rel) then (lit ''Exists: '' @ rel, PASS, [])
      else (lit ''Exists: '' @ rel, FAIL, lit ''Missing '' @ rel))"

section \<open>Ignore rules\<close>

definition check_gitignore :: "env \<Rightarrow> str \<Rightarrow> finding list" where
  "check_gitignore e root =
     (let p = Slash root (lit ''.gitignore'') in
      if \<not> exists e p
      then [(lit ''gitignore present & includes rules'', FAIL, lit ''.gitignore not found'')]
      else
        let text = load_text e p;
            missing = map fst (filter (\<lambda>pat. \<not> re_search False (snd pat) text)
                                 GITIGNORE_REQUIRED_PATTERNS)
        in if missing \<noteq> []
           then [(lit ''gitignore includes today-only rules'', WARN,
                  lit ''Add patterns: '' @ join (lit '', '') missing)]
           else [(lit ''gitignore includes today-only rules'', PASS, [])])"

section \<open>Dependencies\<close>

text \<open>The set \<open>found\<close> of \<open>check_requirements\<close>: the names the manifest declares.\<close>

definition declared :: "str \<Rightarrow> str set" where
  "declared text =
     set (map (\<lambda>line. lower (split_first (lit ''=='') (strip line)))
            (filter (\<lambda>line. strip line \<noteq> [] \<and> \<not> startswith (strip line) (lit ''#''))
               (splitlines text)))"

definition check_requirements :: "env \<Rightarrow> str \<Rightarrow> finding list" where
  "check_requirements e root =
     (let p = Slash root (lit ''requirements.txt'') in
      if \<not> exists e p
      then [(lit ''requirements.txt present'', FAIL, lit ''requirements.txt not found'')]
      else
        let text = load_text e p;
            found = declared text;
            missing = lower ` Set.filter (\<lambda>pkg. lower pkg \<notin> found) REQUIREMENTS_MIN
        in if missing \<noteq> {}
           then [(lit ''requirements includes minimal deps'', WARN,
                  lit ''Missing: '' @ join (lit '', '') (sorted_list_of_set missing))]
           else [(lit ''requirements includes minimal deps'', PASS, [])])"

section \<open>Notebooks\<close>

text \<open>
  \<open>load_notebook\<close> returns the pair \<open>(nb, err)\<close>; \<open>nb\<close> is \<open>None\<close> when the module is
  missing or \<open>nbformat.read\<close> raised.
\<close>

definition load_notebook :: "env \<Rightarrow> path \<Rightarrow> notebook option \<times> str" where
  "load_notebook e p =
     (case nbformat e of
        None \<Rightarrow> (None, lit ''nbformat not installed (pip install nbformat)'')
      | Some rd \<Rightarrow> (case rd p of Inr nb \<Rightarrow> (Some nb, []) | Inl msg \<Rightarrow> (None, msg)))"

definition nb_all_cells :: "notebook \<Rightarrow> cell list" where
  "nb_all_cells nb = nb"

definition nb_markdown_cells :: "notebook \<Rightarrow> cell list" where
  "nb_markdown_cells nb = filter (\<lambda>c. cell_type c = Some (lit ''markdown'')) nb"

definition nb_code_cells :: "notebook \<Rightarrow> cell list" where
  "nb_code_cells nb = filter (\<lambda>c. cell_type c = Some (lit ''code'')) nb"

text \<open>\<open>cell.get("outputs") or []\<close>, \<open>cell.get("source") or ""\<close>, \<open>out.get("data") or {}\<close>.\<close>

definition outputs_or :: "cell \<Rightarrow> output list" where
  "outputs_or c = (case outputs c of None \<Rightarrow> [] | Some outs \<Rightarrow> outs)"

definition source_or :: "cell \<Rightarrow> str" where
  "source_or c = (case source c of None \<Rightarrow> [] | Some src \<Rightarrow> src)"

definition data_or :: "output \<Rightarrow> (str \<rightharpoonup> str)" where
  "data_or out = (case data out of None \<Rightarrow> Map.empty | Some d \<Rightarrow> d)"

fun has_outputs_loop :: "cell list \<Rightarrow> bool" where
  "has_outputs_loop [] = False"
| "has_outputs_loop (c # cs) =
     (let outs = outputs_or c in if length outs > 0 then True else has_outputs_loop cs)"

definition has_outputs :: "notebook \<Rightarrow> bool" where
  "has_outputs nb = has_outputs_loop (nb_code_cells nb)"

definition is_image :: "output \<Rightarrow> bool" where
  "is_image out =
     (let d = data_or out
      in d (lit ''image/png'') \<noteq> None \<or> d (lit ''image/jpeg'') \<noteq> None
         \<or> d (lit ''image/svg+xml'') \<noteq> None)"

text \<open>The two nested loops of \<open>count_image_outputs\<close>, with the counter \<open>cnt\<close>.\<close>

fun count_in_outputs :: "output list \<Rightarrow> nat \<Rightarrow> nat" where
  "count_in_outputs [] cnt = cnt"
| "count_in_outputs (out # outs) cnt =
     count_in_outputs outs (if is_image out then cnt + 1 else cnt)"

fun count_in_cells :: "cell list \<Rightarrow> nat \<Rightarrow> nat" where
  "count_in_cells [] cnt = cnt"
| "count_in_cells (c # cs) cnt = count_in_cells cs (count_in_outputs (outputs_or c) cnt)"

definition count_image_outputs :: "notebook \<Rightarrow> nat" where
  "count_image_outputs nb = count_in_cells (nb_code_cells nb) 0"

text \<open>\<open>find_strings_in_nb\<close>: the inner loop over the patterns, the outer one over the cells.\<close>

fun find_in_source :: "pattern list \<Rightarrow> str \<Rightarrow> str set \<Rightarrow> str set" where
  "find_in_source [] src found = found"
| "find_in_source (pat # pats) src found =
     find_in_source pats src (if re_search True (snd pat) src then insert (fst pat) found else found)"

fun find_in_cells :: "cell list \<Rightarrow> pattern list \<Rightarrow> str list \<Rightarrow> str set \<Rightarrow> str set" where
  "find_in_cells [] patterns search_in found = found"
| "find_in_cells (c # cs) patterns search_in found =
     (case cell_type c of
        None \<Rightarrow> find_in_cells cs patterns search_in found
      | Some ct \<Rightarrow>
          if ct \<notin> set search_in then find_in_cells cs patterns search_in found
          else find_in_cells cs patterns search_in (find_in_source patterns (source_or c) found))"

definition find_strings_in_nb :: "notebook \<Rightarrow> pattern list \<Rightarrow> str list \<Rightarrow> str set" where
  "find_strings_in_nb nb patterns search_in = find_in_cells (nb_all_cells nb) patterns search_in {}"

definition check_nb01 :: "env \<Rightarrow> str \<Rightarrow> finding list" where
  "check_nb01 e root =
     (let path = Slash root (lit ''notebooks/01_problem_framing.ipynb'') in
      case load_notebook e path of
        (None, err) \<Rightarrow> [(lit ''Notebook 01 loads'', FAIL, lit ''Cannot open: '' @ err)]
      | (Some nb, err) \<Rightarrow>
          let results = [(lit ''Notebook 01 loads'', PASS, [])];
              found = find_strings_in_nb nb must_text [lit ''markdown'', lit ''code''];
              missing = filter (\<lambda>m. m \<notin> found) (map fst must_text);
              results = results @
                [if missing \<noteq> []
                 then (lit ''NB01: Problem framing content present'', WARN,
                       lit ''Consider adding: '' @ repr_list missing)
                 else (lit ''NB01: Problem framing content present'', PASS, [])];
              found2 = find_strings_in_nb nb repro_hints [lit ''code''];
              results = results @
                [if found2 = {}
                 then (lit ''NB01: Repro cell (versions/seed)'', WARN,
                       lit ''Add a cell that prints pandas/sklearn versions and sets random_state=42 where relevant.'')
                 else (lit ''NB01: Repro cell (versions/seed)'', PASS, [])];
              results = results @
                [if has_outputs nb
                 then (lit ''NB01: Saved with outputs'', PASS, [])
                 else (lit ''NB01: Saved with outputs'', WARN,
                       lit ''Execute and save so GitHub renders outputs.'')]
          in results)"

text \<open>\<open>any(w in text for w in ["interpretation", "insight", "insights"])\<close>.\<close>

definition has_keyword :: "str \<Rightarrow> bool" where
  "has_keyword text =
     list_ex (\<lambda>w. contains text w) [lit ''interpretation'', lit ''insight'', lit ''insights'']"

text \<open>The two loops that count interpretation notes, with the counter \<open>interp_markdowns\<close>.\<close>

fun interp_in_markdown :: "cell list \<Rightarrow> nat \<Rightarrow> nat" where
  "interp_in_markdown [] interp_markdowns = interp_markdowns"
| "interp_in_markdown (c # cs) interp_markdowns =
     (let text = lower (source_or c) in
      interp_in_markdown cs
        (if has_keyword text
         then (if length (split_ws text) \<ge> 20 then interp_markdowns + 1 else interp_markdowns)
         else interp_markdowns))"

fun interp_in_code :: "cell list \<Rightarrow> nat \<Rightarrow> nat" where
  "interp_in_code [] interp_markdowns = interp_markdowns"
| "interp_in_code (c # cs) interp_markdowns =
     (let src = lower (source_or c) in
      interp_in_code cs (if has_keyword src then interp_markdowns + 1 else interp_markdowns))"

text \<open>The loop over \<open>SKLEARN_CLASS_NAMES\<close>, which stops at the first name found.\<close>

fun names_loop :: "str list \<Rightarrow> str \<Rightarrow> bool \<Rightarrow> bool" where
  "names_loop [] code_text trained = trained"
| "names_loop (name # names) code_text trained =
     (if contains code_text name then True else names_loop names code_text trained)"

definition check_nb02 :: "env \<Rightarrow> str \<Rightarrow> finding list" where
  "check_nb02 e root =
     (let path = Slash root (lit ''notebooks/02_data_understanding.ipynb'') in
      case load_notebook e path of
        (None, err) \<Rightarrow> [(lit ''Notebook 02 loads'', FAIL, lit ''Cannot open: '' @ err)]
      | (Some nb, err) \<Rightarrow>
          let results = [(lit ''Notebook 02 loads'', PASS, [])];
              found_code = find_strings_in_nb nb must_code [lit ''code''];
              missing = filter (\<lambda>m. m \<notin> found_code) (map fst must_code);
              results = results @
                [if missing \<noteq> []
                 then (lit ''NB02: Data load + label (0/1) + concat'', WARN,
                       lit ''Missing patterns: '' @ repr_list missing)
                 else (lit ''NB02: Data load + label (0/1) + concat'', PASS, [])];
              found_vis = find_strings_in_nb nb class_vis_hints [lit ''code''];
              img_count = count_image_outputs nb;
              results = results @
                [if found_vis = {} \<or> img_count < 1
                 then (lit ''NB02: Class balance figure + output'', WARN,
                       lit ''Add a bar/plot of class counts and ensure outputs are saved.'')
                 else (lit ''NB02: Class balance figure + output'', PASS,
                       lit ''Detected '' @ str_nat img_count @ lit '' image outputs.'')];
              results = results @
                [if img_count \<ge> 2
                 then (lit ''NB02: >=2 feature visuals present'', PASS,
                       lit ''Detected '' @ str_nat img_count @ lit '' image outputs.'')
                 else (lit ''NB02: >=2 feature visuals present'', WARN,
                       lit ''Add at least two feature plots (e.g., boxplots/hist by class).'')];
              interp_markdowns = interp_in_markdown (nb_markdown_cells nb) 0;
              interp_markdowns = interp_in_code (nb_code_cells nb) interp_markdowns;
              results = results @
                [if interp_markdowns \<ge> 2
                 then (lit ''NB02: Figure interpretations present'', PASS,
                       str_nat interp_markdowns @ lit '' interpretation notes found.'')
                 else (lit ''NB02: Figure interpretations present'', WARN,
                       lit ''Add 2'' @ EN_DASH # lit ''3 line interpretations under figures (use the word ''
                         @ 39 # lit ''Interpretation'' @ 39 # lit '' to pass this check).'')];
              code_text = join (lit ''\<newline>'') (map source_or (nb_code_cells nb));
              trained = False;
              trained = (if re_search False FIT_CALL code_text then True else trained);
              trained = names_loop SKLEARN_CLASS_NAMES code_text trained;
              results = results @
                [if trained
                 then (lit ''NB02: No model training appears'', FAIL,
                       lit ''Detected model training patterns ('' @ 39 # lit ''.fit('' @ 39 #
                         lit '' or classifier names). Move training to Notebook 03.'')
                 else (lit ''NB02: No model training appears'', PASS, [])];
              results = results @
                [if has_outputs nb
                 then (lit ''NB02: Saved with outputs'', PASS, [])
                 else (lit ''NB02: Saved with outputs'', FAIL,
                       lit ''Run all cells and save notebook with outputs so GitHub renders figures.'')]
          in results)"

section \<open>Tabular shapes\<close>

text \<open>
  A data frame is its shape \<open>(rows, columns)\<close>; \<open>shape_repr\<close> is how the f-string prints
  the tuple. The reader takes the path and the separator.
\<close>

definition shape_repr :: "nat \<times> nat \<Rightarrow> str" where
  "shape_repr sh = lit ''('' @ str_nat (fst sh) @ lit '', '' @ str_nat (snd sh) @ lit '')''"

definition check_data_shapes :: "env \<Rightarrow> str \<Rightarrow> finding list" where
  "check_data_shapes e root =
     (case pd e of
        None \<Rightarrow> [(lit ''Data shapes (red/white)'', WARN,
                   lit ''pandas not available; cannot verify shapes'')]
      | Some read_csv \<Rightarrow>
          let results = [];
              red_p = Slash root (lit ''data/winequality-red.csv'');
              white_p = Slash root (lit ''data/winequality-white.csv'')
          in case read_csv red_p (lit '';'') of
               Inl ex \<Rightarrow> results @ [(lit ''Data shapes (approx UCI)'', FAIL,
                                      lit ''Error reading CSVs: '' @ ex)]
             | Inr red \<Rightarrow>
                 (case read_csv white_p (lit '';'') of
                    Inl ex \<Rightarrow> results @ [(lit ''Data shapes (approx UCI)'', FAIL,
                                           lit ''Error reading CSVs: '' @ ex)]
                  | Inr white \<Rightarrow>
                      let ok_red = ((1500 \<le> fst red \<and> fst red \<le> 1700)
                                     \<and> (11 \<le> snd red \<and> snd red \<le> 13));
                          ok_white = ((4700 \<le> fst white \<and> fst white \<le> 5100)
                                       \<and> (11 \<le> snd white \<and> snd white \<le> 13));
                          status = (if ok_red \<and> ok_white then PASS else WARN);
                          msg = lit ''red='' @ shape_repr red @ lit '', white='' @ shape_repr white
                      in results @ [(lit ''Data shapes (approx UCI)'', status, msg)]))"

section \<open>Report and exit status\<close>

datatype exn = ValueError

text \<open>\<open>max\<close> of a generator: \<open>ValueError\<close> when it yields nothing.\<close>

fun py_max :: "nat list \<Rightarrow> exn + nat" where
  "py_max [] = Inl ValueError"
| "py_max (x # xs) = Inr (foldl max x xs)"

text \<open>
  The loop of \<open>summarize\<close> over \<open>results\<close>; the state is \<open>(lines, failures, warnings)\<close>.
\<close>

fun summarize_loop ::
  "nat \<Rightarrow> nat \<Rightarrow> finding list \<Rightarrow> str list \<times> nat \<times> nat \<Rightarrow> str list \<times> nat \<times> nat" where
  "summarize_loop max_label max_status [] st = st"
| "summarize_loop max_label max_status ((label, status, detail) # rest) (lines, failures, warnings) =
     summarize_loop max_label max_status rest
       (lines @ [ljust label max_label @ lit ''  '' @ ljust status max_status @ lit ''  '' @ detail],
        if status = FAIL then failures + 1 else failures,
        if status = FAIL then warnings else if status = WARN then warnings + 1 else warnings)"

text \<open>
  \<open>now\<close> is what \<open>datetime.now().strftime(...)\<close> returns. The result is the pair
  \<open>(report, failures)\<close>, or the exception that leaves the function.
\<close>

definition summarize :: "str \<Rightarrow> finding list \<Rightarrow> exn + str \<times> nat" where
  "summarize now results =
     (case py_max (map (\<lambda>r. length (fst r)) results) of
        Inl ex \<Rightarrow> Inl ex
      | Inr max_label \<Rightarrow>
          (case py_max (map (\<lambda>r. length (fst (snd r))) results) of
             Inl ex \<Rightarrow> Inl ex
           | Inr max_status \<Rightarrow>
               (case summarize_loop max_label max_status results ([], 0, 0) of
                  (lines, failures, warnings) \<Rightarrow>
                    let header = lit ''QA Report '' @ EM_DASH # lit '' '' @ now;
                        sep = replicate (length header) 45;
                        body = join (lit ''\<newline>'') lines;
                        footer = lit ''\<newline>Summary: '' @ str_nat failures @ lit '' FAIL, ''
                                   @ str_nat warnings @ lit '' WARN\<newline>''
                    in Inr (header @ lit ''\<newline>'' @ sep @ lit ''\<newline>'' @ body @ footer,
                            failures))))"

text \<open>
  \<open>main\<close> for a root directory. \<open>stdout_accepts report\<close> says whether \<open>print(report)\<close>
  succeeds: it raises \<open>UnicodeEncodeError\<close> when the encoding of the stream has no code for
  a character of the report, and \<open>OSError\<close> when the stream cannot be written. An exception
  that leaves \<open>main\<close> ends the process with a traceback and the status 1: this is the result
  \<open>(None, 1)\<close>. Otherwise the result is the report that was printed and the status given to
  \<open>sys.exit\<close>. The flush of the stream when the interpreter shuts down is not modelled.

  The evaluators are called on what the environment delivers: paths whose existence can
  be probed, and notebooks whose cells have a text or no source and a list of outputs
  or none. On a document of another shape, which \<open>nbformat.read\<close> may deliver after
  logging that it is invalid, an evaluator raises and the process ends with the status 1
  as well; such documents are not values of \<open>notebook\<close>.
\<close>

definition all_results :: "env \<Rightarrow> str \<Rightarrow> finding list" where
  "all_results e root =
     [] @ check_files_exist e root @ check_gitignore e root @ check_requirements e root
        @ check_nb01 e root @ check_nb02 e root @ check_data_shapes e root"

definition main :: "env \<Rightarrow> (str \<Rightarrow> bool) \<Rightarrow> str \<Rightarrow> str \<Rightarrow> str option \<times> nat" where
  "main e stdout_accepts now root =
     (case summarize now (all_results e root) of
        Inl ex \<Rightarrow> (None, 1)
      | Inr (report, failures) \<Rightarrow>
          if stdout_accepts report then (Some report, if failures > 0 then 1 else 0)
          else (None, 1))"

text \<open>The number of findings with the status \<open>s\<close>, and the lines of a report.\<close>

definition count_status :: "str \<Rightarrow> finding list \<Rightarrow> nat" where
  "count_status s rs = length (filter (\<lambda>r. status_of r = s) rs)"

definition report_lines :: "exn + str \<times> nat \<Rightarrow> exn + str list" where
  "report_lines res =
     (case res of
        Inl ex \<Rightarrow> Inl ex
      | Inr (report, failures) \<Rightarrow> Inr (split_where (\<lambda>c. c = 10) report))"

section \<open>Example roots\<close>

text \<open>A root where every required path exists but \<open>README.md\<close>.\<close>

definition root_no_readme :: env where
  "root_no_readme =
     \<lparr>exists = (\<lambda>p. p \<noteq> Slash (lit ''/proj'') (lit ''README.md'')),
      read_text = (\<lambda>p enc. None),
      nbformat = None,
      pd = None\<rparr>"

text \<open>
  A root whose files all exist, or none, and where every read returns the same content
  (\<open>None\<close>: every read raises). No notebook module, no tabular reader.
\<close>

definition text_root :: "bool \<Rightarrow> str option \<Rightarrow> env" where
  "text_root present content =
     \<lparr>exists = (\<lambda>p. present),
      read_text = (\<lambda>p enc. content),
      nbformat = None,
      pd = None\<rparr>"

text \<open>An ignore file with every required rule, and one without the \<open>venv/\<close> rule.\<close>

definition gitignore_full :: str where
  "gitignore_full =
     lit ''.ipynb_checkpoints/\<newline>venv/\<newline>__pycache__/\<newline>results/\<newline>notebooks/03_*\<newline>notebooks/04_*\<newline>notebooks/05_*\<newline>''"

definition gitignore_no_venv :: str where
  "gitignore_no_venv =
     lit ''.ipynb_checkpoints/\<newline>__pycache__/\<newline>results/\<newline>notebooks/03_*\<newline>notebooks/04_*\<newline>notebooks/05_*\<newline>''"

text \<open>The text each required ignore pattern looks for.\<close>

definition GITIGNORE_REQUIRED_TEXT :: "str list" where
  "GITIGNORE_REQUIRED_TEXT =
     [lit ''.ipynb_checkpoints/'', lit ''venv/'', lit ''__pycache__/'', lit ''results/'',
      lit ''notebooks/03_'', lit ''notebooks/04_'', lit ''notebooks/05_'']"

text \<open>\<open>sorted(REQUIREMENTS_MIN)\<close>.\<close>

definition REQUIREMENTS_SORTED :: "str list" where
  "REQUIREMENTS_SORTED =
     [lit ''matplotlib'', lit ''numpy'', lit ''pandas'', lit ''scikit-learn'', lit ''seaborn'']"

text \<open>A root where reading as UTF-8 raises and reading as Latin-1 succeeds.\<close>

definition latin1_root :: env where
  "latin1_root =
     \<lparr>exists = (\<lambda>p. True),
      read_text = (\<lambda>p enc. if enc = Latin1 then Some (lit ''venv/'') else None),
      nbformat = None,
      pd = None\<rparr>"

text \<open>
  A root whose tabular reader, called with the separator \<open>;\<close>, returns \<open>red\<close> for the
  red-wine file and \<open>white\<close> for the white-wine file: a shape, or the message of the error
  it raises.
\<close>

definition csv_root :: "str + nat \<times> nat \<Rightarrow> str + nat \<times> nat \<Rightarrow> env" where
  "csv_root red white =
     \<lparr>exists = (\<lambda>p. True),
      read_text = (\<lambda>p enc. None),
      nbformat = None,
      pd = Some (\<lambda>p sep.
             if sep \<noteq> lit '';'' then Inl (lit ''wrong separator'')
             else if p = Slash (lit ''/proj'') (lit ''data/winequality-red.csv'') then red
             else if p = Slash (lit ''/proj'') (lit ''data/winequality-white.csv'') then white
             else Inl (lit ''No such file''))\<rparr>"


text \<open>An output with a PNG image, one with plain text only, and cells built from their fields.\<close>

definition png_output :: "output" where
  "png_output = \<lparr>data = Some [lit ''image/png'' \<mapsto> lit ''iVBORw0KGgo='']\<rparr>"


definition code_cell :: "str \<Rightarrow> output list \<Rightarrow> cell" where
  "code_cell src outs = \<lparr>cell_type = Some (lit ''code''), source = Some src, outputs = Some outs\<rparr>"








text \<open>A root where every path exists and every read of text raises, with a notebook of one code
  cell that has an image output, and a tabular reader that returns an empty shape: no check
  of it fails.\<close>

definition runnable_root :: env where
  "runnable_root =
     \<lparr>exists = (\<lambda>p. True),
      read_text = (\<lambda>p enc. None),
      nbformat = Some (\<lambda>p. Inr [code_cell [] [png_output]]),
      pd = Some (\<lambda>p sep. Inr (0, 0))\<rparr>"

text \<open>Three findings, one of each status.\<close>

definition three_findings :: "finding list" where
  "three_findings =
     [(lit ''Exists: README.md'', FAIL, lit ''Missing README.md''),
      (lit ''gitignore'', WARN, lit ''Add patterns: venv/''),
      (lit ''ok'', PASS, [])]"

text \<open>A manifest that lists the five dependencies in mixed case, some pinned with \<open>==\<close>, and
  one that lists three of them.\<close>

definition manifest_all :: str where
  "manifest_all =
     lit ''# core\<newline>Pandas==2.1.0\<newline>NUMPY\<newline>  scikit-learn==1.3  \<newline>\<newline>matplotlib\<newline>Seaborn==0.13\<newline>''"

definition manifest_partial :: str where
  "manifest_partial = lit ''pandas==2.1.0\<newline>scikit-learn\<newline>matplotlib\<newline>''"

text \<open>Manifests that list all five, with \<open>pandas\<close> pinned as \<open>pandas == 2.1.0\<close> and as
  \<open>pandas>=2.1.0\<close>.\<close>

definition manifest_spaced_pin :: str where
  "manifest_spaced_pin =
     lit ''pandas == 2.1.0\<newline>numpy\<newline>scikit-learn\<newline>matplotlib\<newline>seaborn\<newline>''"

definition manifest_range_pin :: str where
  "manifest_range_pin =
     lit ''pandas>=2.1.0\<newline>numpy\<newline>scikit-learn\<newline>matplotlib\<newline>seaborn\<newline>''"


text \<open>A manifest that writes \<open>scikit-learn\<close> in capitals with the Kelvin sign for the K.\<close>

definition manifest_kelvin :: str where
  "manifest_kelvin =
     lit ''pandas\<newline>numpy\<newline>SCI'' @ 8490 # lit ''IT-LEARN\<newline>matplotlib\<newline>seaborn\<newline>''"

text \<open>A standard output that takes ASCII only.\<close>

definition ascii_only :: "str \<Rightarrow> bool" where
  "ascii_only t = list_all (\<lambda>c. c < 128) t"

text \<open>One finding whose detail has a newline in it.\<close>

definition finding_with_newline :: "finding list" where
  "finding_with_newline = [(lit ''Data shapes'', FAIL, lit ''Error: bad\<newline>line'')]"

section \<open>Properties\<close>

lemma PASS_neq_FAIL: "PASS \<noteq> FAIL"
  by (simp add: PASS_def FAIL_def lit_def)

lemma WARN_neq_FAIL: "WARN \<noteq> FAIL"
  by (simp add: WARN_def FAIL_def lit_def)

lemma PASS_neq_WARN: "PASS \<noteq> WARN"
  by (simp add: PASS_def WARN_def lit_def)

lemma check_files_exist_loop_map:
  "check_files_exist_loop e root rels results = results @ map (exists_finding e root) rels"
  by (induction rels arbitrary: results) (simp_all add: exists_finding_def Let_def)

lemma check_files_exist_map:
  "check_files_exist e root = map (exists_finding e root) REQUIRED_FILES"
  by (simp add: check_files_exist_def check_files_exist_loop_map)

lemma distinct_REQUIRED_FILES: "distinct REQUIRED_FILES"
  by (simp add: REQUIRED_FILES_def lit_def)

subsection \<open>Substrings and pattern search\<close>

lemma startswith_iff: "startswith s p \<longleftrightarrow> (\<exists>v. s = p @ v)"
  by (induction s p rule: startswith.induct) auto

lemma contains_iff: "contains t s \<longleftrightarrow> (\<exists>u v. t = u @ s @ v)"
proof (induction t)
  case Nil
  then show ?case by auto
next
  case (Cons c cs)
  show ?case
  proof
    assume "contains (c # cs) s"
    then consider "startswith (c # cs) s" | "contains cs s" by auto
    then show "\<exists>u v. c # cs = u @ s @ v"
    proof cases
      case 1
      then obtain v where "c # cs = s @ v" by (auto simp: startswith_iff)
      then have "c # cs = [] @ s @ v" by simp
      then show ?thesis by blast
    next
      case 2
      then obtain u v where "cs = u @ s @ v" using Cons.IH by auto
      then have "c # cs = (c # u) @ s @ v" by simp
      then show ?thesis by blast
    qed
  next
    assume "\<exists>u v. c # cs = u @ s @ v"
    then obtain u v where uv: "c # cs = u @ s @ v" by auto
    show "contains (c # cs) s"
    proof (cases u)
      case Nil
      with uv have "startswith (c # cs) s" by (auto simp: startswith_iff)
      then show ?thesis by simp
    next
      case (Cons a u')
      with uv have "cs = u' @ s @ v" by simp
      then have "contains cs s" using Cons.IH by auto
      then show ?thesis by simp
    qed
  qed
qed

inductive_simps matches_Nothing [simp]: "matches ic Nothing w"
inductive_simps matches_Eps [simp]: "matches ic Eps w"
inductive_simps matches_Sym [simp]: "matches ic (Sym p) w"
inductive_simps matches_Dot [simp]: "matches ic Dot w"
inductive_simps matches_OneOf [simp]: "matches ic (OneOf ps) w"
inductive_simps matches_Space [simp]: "matches ic Space w"
inductive_simps matches_Seq: "matches ic (Seq r s) w"
inductive_simps matches_Alt [simp]: "matches ic (Alt r s) w"
inductive_simps matches_Star: "matches ic (Star r) w"

lemma nullable_iff: "nullable r \<longleftrightarrow> matches ic r []"
  by (induction r) (auto simp: matches_Seq intro: matches.intros)

lemma matches_seq: "matches ic (seq r s) w \<longleftrightarrow> matches ic (Seq r s) w"
  by (induction r s rule: seq.induct) (auto simp: matches_Seq)

lemma matches_alt: "matches ic (alt r s) w \<longleftrightarrow> matches ic (Alt r s) w"
  by (induction r s rule: alt.induct) auto

lemma matches_star_cons_D:
  "matches ic q x \<Longrightarrow> q = Star r \<Longrightarrow> x = c # w \<Longrightarrow>
   \<exists>u v. w = u @ v \<and> matches ic r (c # u) \<and> matches ic (Star r) v"
proof (induction arbitrary: w rule: matches.induct)
  case (m_star1 ic r' u v)
  show ?case
  proof (cases u)
    case Nil
    with m_star1 show ?thesis by auto
  next
    case (Cons a u')
    with m_star1 have "w = u' @ v" "matches ic r (c # u')" "matches ic (Star r) v" by auto
    then show ?thesis by blast
  qed
qed auto

lemma matches_star_cons:
  "matches ic (Star r) (c # w) \<longleftrightarrow>
   (\<exists>u v. w = u @ v \<and> matches ic r (c # u) \<and> matches ic (Star r) v)"
proof
  assume "matches ic (Star r) (c # w)"
  then show "\<exists>u v. w = u @ v \<and> matches ic r (c # u) \<and> matches ic (Star r) v"
    using matches_star_cons_D by blast
next
  assume "\<exists>u v. w = u @ v \<and> matches ic r (c # u) \<and> matches ic (Star r) v"
  then obtain u v where "w = u @ v" "matches ic r (c # u)" "matches ic (Star r) v" by auto
  then have "matches ic (Star r) ((c # u) @ v)" by (intro m_star1)
  with \<open>w = u @ v\<close> show "matches ic (Star r) (c # w)" by simp
qed

lemma deriv_iff: "matches ic (deriv ic c r) w \<longleftrightarrow> matches ic r (c # w)"
proof (induction r arbitrary: w)
  case (Seq r s)
  show ?case
  proof
    assume "matches ic (deriv ic c (Seq r s)) w"
    then have "(\<exists>u v. w = u @ v \<and> matches ic r (c # u) \<and> matches ic s v)
               \<or> (nullable r \<and> matches ic s (c # w))"
      by (auto simp: matches_alt matches_seq matches_Seq Seq.IH split: if_splits)
    then show "matches ic (Seq r s) (c # w)"
    proof
      assume "\<exists>u v. w = u @ v \<and> matches ic r (c # u) \<and> matches ic s v"
      then obtain u v where "w = u @ v" "matches ic r (c # u)" "matches ic s v" by auto
      then have "matches ic (Seq r s) ((c # u) @ v)" by (intro m_seq)
      with \<open>w = u @ v\<close> show ?thesis by simp
    next
      assume "nullable r \<and> matches ic s (c # w)"
      then have "matches ic (Seq r s) ([] @ c # w)"
        by (intro m_seq) (auto simp: nullable_iff [of r ic])
      then show ?thesis by simp
    qed
  next
    assume "matches ic (Seq r s) (c # w)"
    then obtain u v where uv: "c # w = u @ v" "matches ic r u" "matches ic s v"
      by (auto simp: matches_Seq)
    show "matches ic (deriv ic c (Seq r s)) w"
    proof (cases u)
      case Nil
      with uv have "nullable r" "matches ic s (c # w)" by (auto simp: nullable_iff [of r ic])
      then show ?thesis by (simp add: matches_alt matches_seq Seq.IH)
    next
      case (Cons a u')
      with uv have w: "w = u' @ v" and "u = c # u'" by auto
      with uv have "matches ic r (c # u')" by simp
      then have "matches ic (deriv ic c r) u'" by (simp add: Seq.IH)
      with w uv have "matches ic (Seq (deriv ic c r) s) w" by (auto simp: matches_Seq)
      then show ?thesis by (simp add: matches_alt matches_seq)
    qed
  qed
next
  case (Star r)
  show ?case
    by (auto simp: matches_seq matches_Seq matches_star_cons Star.IH)
qed (auto simp: matches_alt)

lemma re_match_iff: "re_match ic r s \<longleftrightarrow> (\<exists>u v. s = u @ v \<and> matches ic r u)"
proof (induction s arbitrary: r)
  case Nil
  then show ?case by (simp add: nullable_iff [of _ ic])
next
  case (Cons c cs)
  show ?case
  proof
    assume "re_match ic r (c # cs)"
    then consider "nullable r" | "re_match ic (deriv ic c r) cs" by auto
    then show "\<exists>u v. c # cs = u @ v \<and> matches ic r u"
    proof cases
      case 1
      then have "c # cs = [] @ c # cs \<and> matches ic r []" by (simp add: nullable_iff [of r ic])
      then show ?thesis by blast
    next
      case 2
      then obtain u v where "cs = u @ v" "matches ic r (c # u)"
        by (auto simp: Cons.IH deriv_iff)
      then have "c # cs = (c # u) @ v \<and> matches ic r (c # u)" by simp
      then show ?thesis by blast
    qed
  next
    assume "\<exists>u v. c # cs = u @ v \<and> matches ic r u"
    then obtain u v where uv: "c # cs = u @ v" "matches ic r u" by auto
    show "re_match ic r (c # cs)"
    proof (cases u)
      case Nil
      with uv have "nullable r" by (simp add: nullable_iff [of r ic])
      then show ?thesis by simp
    next
      case (Cons a u')
      with uv have "cs = u' @ v" "matches ic (deriv ic c r) u'" by (auto simp: deriv_iff)
      then have "re_match ic (deriv ic c r) cs" using Cons.IH by blast
      then show ?thesis by simp
    qed
  qed
qed

lemma re_search_iff: "re_search ic r s \<longleftrightarrow> (\<exists>u v w. s = u @ v @ w \<and> matches ic r v)"
proof (induction s)
  case Nil
  then show ?case by (simp add: nullable_iff [of r ic])
next
  case (Cons c cs)
  show ?case
  proof
    assume "re_search ic r (c # cs)"
    then consider "re_match ic r (c # cs)" | "re_search ic r cs" by auto
    then show "\<exists>u v w. c # cs = u @ v @ w \<and> matches ic r v"
    proof cases
      case 1
      then obtain v w where "c # cs = v @ w" "matches ic r v" by (auto simp: re_match_iff)
      then have "c # cs = [] @ v @ w \<and> matches ic r v" by simp
      then show ?thesis by blast
    next
      case 2
      then obtain u v w where "cs = u @ v @ w" "matches ic r v" using Cons.IH by auto
      then have "c # cs = (c # u) @ v @ w \<and> matches ic r v" by simp
      then show ?thesis by blast
    qed
  next
    assume "\<exists>u v w. c # cs = u @ v @ w \<and> matches ic r v"
    then obtain u v w where uvw: "c # cs = u @ v @ w" "matches ic r v" by auto
    show "re_search ic r (c # cs)"
    proof (cases u)
      case Nil
      with uvw have "re_match ic r (c # cs)" by (auto simp: re_match_iff)
      then show ?thesis by simp
    next
      case (Cons a u')
      with uvw have "cs = u' @ v @ w" by simp
      with uvw have "re_search ic r cs" using Cons.IH by blast
      then show ?thesis by simp
    qed
  qed
qed

lemma matches_lits: "matches False (lits s) w \<longleftrightarrow> w = s"
  by (induction s arbitrary: w rule: lits.induct) (auto simp: matches_Seq sym_match_def)

lemma re_search_lits: "re_search False (lits s) t \<longleftrightarrow> contains t s"
  by (simp add: re_search_iff contains_iff matches_lits)

lemma re_search_lits_any: "re_search False (Seq (lits s) (Star Dot)) t \<longleftrightarrow> contains t s"
proof
  assume "re_search False (Seq (lits s) (Star Dot)) t"
  then obtain u v w x y where "t = u @ v @ w" "v = x @ y" "x = s"
    by (auto simp: re_search_iff matches_Seq matches_lits)
  then have "t = u @ s @ (y @ w)" by simp
  then show "contains t s" unfolding contains_iff by blast
next
  assume "contains t s"
  then obtain u w where "t = u @ s @ w" by (auto simp: contains_iff)
  moreover have "matches False (Seq (lits s) (Star Dot)) (s @ [])"
    by (intro m_seq m_star0) (simp add: matches_lits)
  ultimately show "re_search False (Seq (lits s) (Star Dot)) t"
    unfolding re_search_iff by (metis append_Nil2)
qed

lemma gitignore_search_contains:
  "map (\<lambda>pat. re_search False (snd pat) t) GITIGNORE_REQUIRED_PATTERNS
     = map (contains t) GITIGNORE_REQUIRED_TEXT"
  by (simp add: GITIGNORE_REQUIRED_PATTERNS_def GITIGNORE_REQUIRED_TEXT_def
      re_search_lits re_search_lits_any)

lemma distinct_GITIGNORE_REQUIRED_PATTERNS: "distinct (map fst GITIGNORE_REQUIRED_PATTERNS)"
  by (simp add: GITIGNORE_REQUIRED_PATTERNS_def lit_def)

subsection \<open>Helpers on findings\<close>

lemma filter_eq_distinct:
  "distinct xs \<Longrightarrow> x \<in> set xs \<Longrightarrow> filter (\<lambda>y. y = x) xs = [x]"
  by (induction xs) (auto simp: filter_empty_conv)

lemma status_of_exists_finding:
  "status_of (exists_finding e root rel) = FAIL \<longleftrightarrow> \<not> exists e (Slash root rel)"
  by (simp add: status_of_def exists_finding_def PASS_neq_FAIL)

subsection \<open>Artifact existence\<close>

text \<open>
  C3. For every root, \<open>check_files_exist\<close> returns one finding per path of
  \<open>REQUIRED_FILES\<close>, in the order of the catalog: the \<open>i\<close>-th finding is PASS with an empty
  detail when the \<open>i\<close>-th path exists under the root, and FAIL with the detail
  \<open>Missing <path>\<close> when it does not. When exactly one required path \<open>rel\<close> is missing, the
  FAIL findings are the single finding that names \<open>rel\<close>, and the other findings are the
  PASS findings of the other paths, in catalog order.
\<close>

theorem check_files_exist_one_finding_per_path:
  "length (check_files_exist e root) = length REQUIRED_FILES
   \<and> (\<forall>i < length REQUIRED_FILES.
         check_files_exist e root ! i =
           (if exists e (Slash root (REQUIRED_FILES ! i))
            then (lit ''Exists: '' @ REQUIRED_FILES ! i, PASS, [])
            else (lit ''Exists: '' @ REQUIRED_FILES ! i, FAIL,
                  lit ''Missing '' @ REQUIRED_FILES ! i)))
   \<and> (rel \<in> set REQUIRED_FILES \<and> \<not> exists e (Slash root rel)
        \<and> (\<forall>r \<in> set REQUIRED_FILES. r \<noteq> rel \<longrightarrow> exists e (Slash root r))
       \<longrightarrow> filter (\<lambda>f. status_of f = FAIL) (check_files_exist e root)
             = [(lit ''Exists: '' @ rel, FAIL, lit ''Missing '' @ rel)]
           \<and> filter (\<lambda>f. status_of f \<noteq> FAIL) (check_files_exist e root)
             = map (\<lambda>r. (lit ''Exists: '' @ r, PASS, [])) (filter (\<lambda>r. r \<noteq> rel) REQUIRED_FILES))"
proof (intro conjI allI impI)
  show "length (check_files_exist e root) = length REQUIRED_FILES"
    by (simp add: check_files_exist_map)
next
  fix i assume "i < length REQUIRED_FILES"
  then show "check_files_exist e root ! i =
           (if exists e (Slash root (REQUIRED_FILES ! i))
            then (lit ''Exists: '' @ REQUIRED_FILES ! i, PASS, [])
            else (lit ''Exists: '' @ REQUIRED_FILES ! i, FAIL,
                  lit ''Missing '' @ REQUIRED_FILES ! i))"
    by (simp add: check_files_exist_map exists_finding_def)
next
  assume h: "rel \<in> set REQUIRED_FILES \<and> \<not> exists e (Slash root rel)
        \<and> (\<forall>r \<in> set REQUIRED_FILES. r \<noteq> rel \<longrightarrow> exists e (Slash root r))"
  have same: "filter (\<lambda>r. \<not> exists e (Slash root r)) REQUIRED_FILES
                = filter (\<lambda>r. r = rel) REQUIRED_FILES"
    using h by (intro filter_cong) auto
  have other: "filter (\<lambda>r. exists e (Slash root r)) REQUIRED_FILES
                = filter (\<lambda>r. r \<noteq> rel) REQUIRED_FILES"
    using h by (intro filter_cong) auto
  have one: "filter (\<lambda>r. r = rel) REQUIRED_FILES = [rel]"
    using h by (simp add: filter_eq_distinct distinct_REQUIRED_FILES)
  have "filter (\<lambda>f. status_of f = FAIL) (check_files_exist e root)
          = map (exists_finding e root) [rel]"
    by (simp add: check_files_exist_map filter_map comp_def status_of_exists_finding same one)
  then show "filter (\<lambda>f. status_of f = FAIL) (check_files_exist e root)
          = [(lit ''Exists: '' @ rel, FAIL, lit ''Missing '' @ rel)]"
    using h by (simp add: exists_finding_def)
  have "filter (\<lambda>f. status_of f \<noteq> FAIL) (check_files_exist e root)
          = map (exists_finding e root) (filter (\<lambda>r. r \<noteq> rel) REQUIRED_FILES)"
    by (simp add: check_files_exist_map filter_map comp_def status_of_exists_finding other)
  also have "\<dots> = map (\<lambda>r. (lit ''Exists: '' @ r, PASS, [])) (filter (\<lambda>r. r \<noteq> rel) REQUIRED_FILES)"
    using h by (intro map_cong) (auto simp: exists_finding_def)
  finally show "filter (\<lambda>f. status_of f \<noteq> FAIL) (check_files_exist e root)
          = map (\<lambda>r. (lit ''Exists: '' @ r, PASS, [])) (filter (\<lambda>r. r \<noteq> rel) REQUIRED_FILES)" .
qed

theorem check_files_exist_one_finding_per_path_witness:
  "length (check_files_exist root_no_readme (lit ''/proj'')) = 7
   \<and> check_files_exist root_no_readme (lit ''/proj'') ! 4
       = (lit ''Exists: README.md'', FAIL, lit ''Missing README.md'')
   \<and> check_files_exist root_no_readme (lit ''/proj'') ! 6
       = (lit ''Exists: .gitignore'', PASS, [])
   \<and> filter (\<lambda>f. status_of f = FAIL) (check_files_exist root_no_readme (lit ''/proj''))
       = [(lit ''Exists: README.md'', FAIL, lit ''Missing README.md'')]
   \<and> length (filter (\<lambda>f. status_of f \<noteq> FAIL) (check_files_exist root_no_readme (lit ''/proj''))) = 6"
  using check_files_exist_one_finding_per_path
          [of root_no_readme "lit ''/proj''" "lit ''README.md''"]
  by (simp add: REQUIRED_FILES_def root_no_readme_def lit_def)

subsection \<open>Ignore rules\<close>

lemma gitignore_full_search:
  "map (contains gitignore_full) GITIGNORE_REQUIRED_TEXT = [True, True, True, True, True, True, True]"
  by (simp add: gitignore_full_def GITIGNORE_REQUIRED_TEXT_def lit_def)

lemma gitignore_no_venv_search:
  "map (contains gitignore_no_venv) GITIGNORE_REQUIRED_TEXT = [True, False, True, True, True, True, True]"
  by (simp add: gitignore_no_venv_def GITIGNORE_REQUIRED_TEXT_def lit_def)

text \<open>
  C7. For every root, \<open>check_gitignore\<close> returns exactly one finding. It is FAIL when
  \<open>.gitignore\<close> does not exist. When it exists, the finding is PASS if \<open>re.search\<close> finds
  every pattern of \<open>GITIGNORE_REQUIRED_PATTERNS\<close> in the text of the file, and otherwise
  WARN with the detail \<open>Add patterns:\<close> followed by the sources of exactly the patterns
  not found, in catalog order, separated by \<open>, \<close>. When exactly one required pattern is
  not found, the WARN names that pattern alone. A pattern is found exactly when the text
  contains the corresponding piece of \<open>GITIGNORE_REQUIRED_TEXT\<close>.
\<close>

theorem check_gitignore_single_finding:
  "length (check_gitignore e root) = 1
   \<and> (\<not> exists e (Slash root (lit ''.gitignore''))
        \<longrightarrow> check_gitignore e root
            = [(lit ''gitignore present & includes rules'', FAIL, lit ''.gitignore not found'')])
   \<and> (exists e (Slash root (lit ''.gitignore''))
        \<longrightarrow> check_gitignore e root
            = (let text = load_text e (Slash root (lit ''.gitignore''));
                   missing = filter (\<lambda>pat. \<not> re_search False (snd pat) text)
                               GITIGNORE_REQUIRED_PATTERNS
               in if missing = []
                  then [(lit ''gitignore includes today-only rules'', PASS, [])]
                  else [(lit ''gitignore includes today-only rules'', WARN,
                         lit ''Add patterns: '' @ join (lit '', '') (map fst missing))]))
   \<and> (exists e (Slash root (lit ''.gitignore''))
        \<and> pat \<in> set GITIGNORE_REQUIRED_PATTERNS
        \<and> (\<forall>q \<in> set GITIGNORE_REQUIRED_PATTERNS.
              re_search False (snd q) (load_text e (Slash root (lit ''.gitignore''))) \<longleftrightarrow> q \<noteq> pat)
        \<longrightarrow> check_gitignore e root
            = [(lit ''gitignore includes today-only rules'', WARN,
                lit ''Add patterns: '' @ fst pat)])
   \<and> map (\<lambda>q. re_search False (snd q) t) GITIGNORE_REQUIRED_PATTERNS
       = map (contains t) GITIGNORE_REQUIRED_TEXT"
proof (intro conjI impI)
  show "length (check_gitignore e root) = 1"
    by (simp add: check_gitignore_def Let_def)
next
  assume "\<not> exists e (Slash root (lit ''.gitignore''))"
  then show "check_gitignore e root
            = [(lit ''gitignore present & includes rules'', FAIL, lit ''.gitignore not found'')]"
    by (simp add: check_gitignore_def)
next
  assume "exists e (Slash root (lit ''.gitignore''))"
  then show "check_gitignore e root
            = (let text = load_text e (Slash root (lit ''.gitignore''));
                   missing = filter (\<lambda>pat. \<not> re_search False (snd pat) text)
                               GITIGNORE_REQUIRED_PATTERNS
               in if missing = []
                  then [(lit ''gitignore includes today-only rules'', PASS, [])]
                  else [(lit ''gitignore includes today-only rules'', WARN,
                         lit ''Add patterns: '' @ join (lit '', '') (map fst missing))])"
    by (simp add: check_gitignore_def Let_def)
next
  let ?t = "load_text e (Slash root (lit ''.gitignore''))"
  assume h: "exists e (Slash root (lit ''.gitignore''))
        \<and> pat \<in> set GITIGNORE_REQUIRED_PATTERNS
        \<and> (\<forall>q \<in> set GITIGNORE_REQUIRED_PATTERNS. re_search False (snd q) ?t \<longleftrightarrow> q \<noteq> pat)"
  have d: "distinct GITIGNORE_REQUIRED_PATTERNS"
    using distinct_GITIGNORE_REQUIRED_PATTERNS by (rule distinct_map [THEN iffD1, THEN conjunct1])
  have "filter (\<lambda>q. \<not> re_search False (snd q) ?t) GITIGNORE_REQUIRED_PATTERNS
          = filter (\<lambda>q. q = pat) GITIGNORE_REQUIRED_PATTERNS"
    using h by (intro filter_cong) auto
  also have "\<dots> = [pat]"
    using h d by (simp add: filter_eq_distinct)
  finally show "check_gitignore e root
            = [(lit ''gitignore includes today-only rules'', WARN,
                lit ''Add patterns: '' @ fst pat)]"
    using h by (simp add: check_gitignore_def Let_def)
next
  show "map (\<lambda>q. re_search False (snd q) t) GITIGNORE_REQUIRED_PATTERNS
       = map (contains t) GITIGNORE_REQUIRED_TEXT"
    by (rule gitignore_search_contains)
qed

theorem check_gitignore_single_finding_witness:
  "check_gitignore (text_root False None) (lit ''/proj'')
     = [(lit ''gitignore present & includes rules'', FAIL, lit ''.gitignore not found'')]
   \<and> check_gitignore (text_root True (Some gitignore_full)) (lit ''/proj'')
     = [(lit ''gitignore includes today-only rules'', PASS, [])]
   \<and> check_gitignore (text_root True (Some gitignore_no_venv)) (lit ''/proj'')
     = [(lit ''gitignore includes today-only rules'', WARN, lit ''Add patterns: venv/'')]"
proof -
  have full: "filter (\<lambda>pat. \<not> re_search False (snd pat) gitignore_full) GITIGNORE_REQUIRED_PATTERNS = []"
    using gitignore_full_search [unfolded gitignore_search_contains [symmetric]]
    by (simp add: GITIGNORE_REQUIRED_PATTERNS_def)
  have nov: "\<forall>q \<in> set GITIGNORE_REQUIRED_PATTERNS.
               re_search False (snd q) gitignore_no_venv \<longleftrightarrow> q \<noteq> (lit ''venv/'', lits (lit ''venv/''))"
    using gitignore_no_venv_search [unfolded gitignore_search_contains [symmetric]]
    by (simp add: GITIGNORE_REQUIRED_PATTERNS_def lit_def)
  have mem: "(lit ''venv/'', lits (lit ''venv/'')) \<in> set GITIGNORE_REQUIRED_PATTERNS"
    by (simp add: GITIGNORE_REQUIRED_PATTERNS_def)
  have a: "check_gitignore (text_root False None) (lit ''/proj'')
     = [(lit ''gitignore present & includes rules'', FAIL, lit ''.gitignore not found'')]"
    using check_gitignore_single_finding [of "text_root False None" "lit ''/proj''"]
    by (simp add: text_root_def)
  have b: "check_gitignore (text_root True (Some gitignore_full)) (lit ''/proj'')
     = [(lit ''gitignore includes today-only rules'', PASS, [])]"
    using check_gitignore_single_finding [of "text_root True (Some gitignore_full)" "lit ''/proj''"]
          full
    by (simp add: text_root_def load_text_def)
  have c: "check_gitignore (text_root True (Some gitignore_no_venv)) (lit ''/proj'')
     = [(lit ''gitignore includes today-only rules'', WARN, lit ''Add patterns: '' @ lit ''venv/'')]"
    using check_gitignore_single_finding
            [of "text_root True (Some gitignore_no_venv)" "lit ''/proj''"
                "(lit ''venv/'', lits (lit ''venv/''))",
             THEN conjunct2, THEN conjunct2, THEN conjunct2, THEN conjunct1]
          nov mem
    by (simp add: text_root_def load_text_def)
  show ?thesis
    using a b c by (simp add: lit_def)
qed

subsection \<open>Dependencies: helpers\<close>

lemma set_REQUIREMENTS_SORTED: "set REQUIREMENTS_SORTED = REQUIREMENTS_MIN"
  by (auto simp: REQUIREMENTS_SORTED_def REQUIREMENTS_MIN_def)

lemma sorted_REQUIREMENTS_SORTED: "sorted REQUIREMENTS_SORTED"
  by (simp add: REQUIREMENTS_SORTED_def lit_def)

lemma distinct_REQUIREMENTS_SORTED: "distinct REQUIREMENTS_SORTED"
  by (simp add: REQUIREMENTS_SORTED_def lit_def)

lemma lower_REQUIREMENTS_MIN: "pkg \<in> REQUIREMENTS_MIN \<Longrightarrow> lower pkg = pkg"
  by (auto simp: REQUIREMENTS_MIN_def lower_def lower_cp_def lit_def)

lemma missing_requirements:
  "lower ` Set.filter (\<lambda>pkg. lower pkg \<notin> found) REQUIREMENTS_MIN
     = set (filter (\<lambda>d. d \<notin> found) REQUIREMENTS_SORTED)"
proof -
  have "lower ` Set.filter (\<lambda>pkg. lower pkg \<notin> found) REQUIREMENTS_MIN
          = Set.filter (\<lambda>d. d \<notin> found) REQUIREMENTS_MIN"
    by (auto simp: lower_REQUIREMENTS_MIN image_iff)
  then show ?thesis
    by (auto simp: set_REQUIREMENTS_SORTED [symmetric])
qed

lemma sorted_missing_requirements:
  "sorted_list_of_set (set (filter (\<lambda>d. d \<notin> found) REQUIREMENTS_SORTED))
     = filter (\<lambda>d. d \<notin> found) REQUIREMENTS_SORTED"
  by (intro sorted_list_of_set.idem_if_sorted_distinct sorted_wrt_filter distinct_filter
      sorted_REQUIREMENTS_SORTED distinct_REQUIREMENTS_SORTED)

lemma check_requirements_present:
  "exists e (Slash root (lit ''requirements.txt'')) \<Longrightarrow>
   check_requirements e root =
     (let missing = filter (\<lambda>d. d \<notin> declared (load_text e (Slash root (lit ''requirements.txt''))))
                      REQUIREMENTS_SORTED
      in if missing = []
         then [(lit ''requirements includes minimal deps'', PASS, [])]
         else [(lit ''requirements includes minimal deps'', WARN,
                lit ''Missing: '' @ join (lit '', '') missing)])"
  unfolding check_requirements_def Let_def missing_requirements sorted_missing_requirements
  by (simp del: set_filter)

lemma declared_Nil: "declared [] = {}"
  by (simp add: declared_def splitlines_def)

lemma gitignore_none_found:
  "filter (\<lambda>pat. \<not> nullable (snd pat)) GITIGNORE_REQUIRED_PATTERNS
     = GITIGNORE_REQUIRED_PATTERNS"
  by (simp add: GITIGNORE_REQUIRED_PATTERNS_def lit_def)

lemma gitignore_all_sources:
  "join (lit '', '') (map fst GITIGNORE_REQUIRED_PATTERNS)
     = 92 # lit ''.ipynb_checkpoints/, venv/, __pycache__/, results/, notebooks/03_.*, notebooks/04_.*, notebooks/05_.*''"
  by (simp add: GITIGNORE_REQUIRED_PATTERNS_def lit_def)

lemma requirements_all_names:
  "join (lit '', '') REQUIREMENTS_SORTED = lit ''matplotlib, numpy, pandas, scikit-learn, seaborn''"
  by (simp add: REQUIREMENTS_SORTED_def lit_def)

subsection \<open>Reading text\<close>

text \<open>
  C10. \<open>load_text\<close> returns a string for every path and never raises: it is what reading
  as UTF-8 returns; when that raises, what reading as Latin-1 returns; when both raise, the
  empty string. So when \<open>.gitignore\<close> exists and cannot be read, \<open>check_gitignore\<close>
  returns one WARN that lists every required pattern, and when \<open>requirements.txt\<close>
  exists and cannot be read, \<open>check_requirements\<close> returns one WARN that lists all five
  dependencies: neither a crash nor a FAIL.
\<close>

theorem load_text_total:
  "(read_text e p UTF8 = Some t \<longrightarrow> load_text e p = t)
   \<and> (read_text e p UTF8 = None \<and> read_text e p Latin1 = Some t \<longrightarrow> load_text e p = t)
   \<and> (read_text e p UTF8 = None \<and> read_text e p Latin1 = None \<longrightarrow> load_text e p = [])
   \<and> (exists e (Slash root (lit ''.gitignore''))
        \<and> read_text e (Slash root (lit ''.gitignore'')) UTF8 = None
        \<and> read_text e (Slash root (lit ''.gitignore'')) Latin1 = None
       \<longrightarrow> check_gitignore e root
            = [(lit ''gitignore includes today-only rules'', WARN,
                lit ''Add patterns: '' @ 92 # lit ''.ipynb_checkpoints/, venv/, __pycache__/, results/, notebooks/03_.*, notebooks/04_.*, notebooks/05_.*'')])
   \<and> (exists e (Slash root (lit ''requirements.txt''))
        \<and> read_text e (Slash root (lit ''requirements.txt'')) UTF8 = None
        \<and> read_text e (Slash root (lit ''requirements.txt'')) Latin1 = None
       \<longrightarrow> check_requirements e root
            = [(lit ''requirements includes minimal deps'', WARN,
                lit ''Missing: matplotlib, numpy, pandas, scikit-learn, seaborn'')])"
proof (intro conjI impI)
  assume h: "exists e (Slash root (lit ''.gitignore''))
        \<and> read_text e (Slash root (lit ''.gitignore'')) UTF8 = None
        \<and> read_text e (Slash root (lit ''.gitignore'')) Latin1 = None"
  then have "load_text e (Slash root (lit ''.gitignore'')) = []"
    by (simp add: load_text_def)
  moreover have "GITIGNORE_REQUIRED_PATTERNS \<noteq> []"
    by (simp add: GITIGNORE_REQUIRED_PATTERNS_def)
  ultimately show "check_gitignore e root
            = [(lit ''gitignore includes today-only rules'', WARN,
                lit ''Add patterns: '' @ 92 # lit ''.ipynb_checkpoints/, venv/, __pycache__/, results/, notebooks/03_.*, notebooks/04_.*, notebooks/05_.*'')]"
    using h by (simp add: check_gitignore_def Let_def gitignore_none_found gitignore_all_sources)
next
  assume h: "exists e (Slash root (lit ''requirements.txt''))
        \<and> read_text e (Slash root (lit ''requirements.txt'')) UTF8 = None
        \<and> read_text e (Slash root (lit ''requirements.txt'')) Latin1 = None"
  then have "load_text e (Slash root (lit ''requirements.txt'')) = []"
    by (simp add: load_text_def)
  moreover have "REQUIREMENTS_SORTED \<noteq> []"
    by (simp add: REQUIREMENTS_SORTED_def)
  moreover have "lit ''Missing: '' @ lit ''matplotlib, numpy, pandas, scikit-learn, seaborn''
                   = lit ''Missing: matplotlib, numpy, pandas, scikit-learn, seaborn''"
    by (simp add: lit_def)
  ultimately show "check_requirements e root
            = [(lit ''requirements includes minimal deps'', WARN,
                lit ''Missing: matplotlib, numpy, pandas, scikit-learn, seaborn'')]"
    using h by (simp add: check_requirements_present declared_Nil requirements_all_names)
qed (simp_all add: load_text_def)

theorem load_text_total_witness:
  "load_text (text_root True (Some (lit ''venv/''))) (Slash (lit ''/proj'') (lit ''.gitignore'')) = lit ''venv/''
   \<and> load_text latin1_root (Slash (lit ''/proj'') (lit ''.gitignore'')) = lit ''venv/''
   \<and> load_text (text_root True None) (Slash (lit ''/proj'') (lit ''.gitignore'')) = []
   \<and> check_gitignore (text_root True None) (lit ''/proj'')
       = [(lit ''gitignore includes today-only rules'', WARN,
           lit ''Add patterns: '' @ 92 # lit ''.ipynb_checkpoints/, venv/, __pycache__/, results/, notebooks/03_.*, notebooks/04_.*, notebooks/05_.*'')]
   \<and> check_requirements (text_root True None) (lit ''/proj'')
       = [(lit ''requirements includes minimal deps'', WARN,
           lit ''Missing: matplotlib, numpy, pandas, scikit-learn, seaborn'')]"
  using load_text_total [of "text_root True (Some (lit ''venv/''))"
                            "Slash (lit ''/proj'') (lit ''.gitignore'')" "lit ''venv/''"]
        load_text_total [of latin1_root "Slash (lit ''/proj'') (lit ''.gitignore'')" "lit ''venv/''"]
        load_text_total [of "text_root True None" "Slash (lit ''/proj'') (lit ''.gitignore'')" _
                            "lit ''/proj''"]
  by (simp add: text_root_def latin1_root_def)

subsection \<open>Tabular shapes\<close>

text \<open>
  C8. \<open>check_data_shapes\<close> returns one finding. Without the tabular reader it is WARN.
  Otherwise both files are read with the separator \<open>;\<close>: when both reads succeed the
  finding is PASS if the red file has 1500 to 1700 rows and 11 to 13 columns and the white
  file 4700 to 5100 rows and 11 to 13 columns, and WARN if not, and in both cases the
  detail shows the two shapes; when a read raises, the finding is FAIL and its detail
  carries the message of the error.
\<close>

theorem check_data_shapes_cases:
  "(pd e = None
      \<longrightarrow> check_data_shapes e root
          = [(lit ''Data shapes (red/white)'', WARN, lit ''pandas not available; cannot verify shapes'')])
   \<and> (pd e = Some rd
       \<and> rd (Slash root (lit ''data/winequality-red.csv'')) (lit '';'') = Inr red
       \<and> rd (Slash root (lit ''data/winequality-white.csv'')) (lit '';'') = Inr white
      \<longrightarrow> check_data_shapes e root
          = [(lit ''Data shapes (approx UCI)'',
              if 1500 \<le> fst red \<and> fst red \<le> 1700 \<and> 11 \<le> snd red \<and> snd red \<le> 13
                 \<and> 4700 \<le> fst white \<and> fst white \<le> 5100 \<and> 11 \<le> snd white \<and> snd white \<le> 13
              then PASS else WARN,
              lit ''red=('' @ str_nat (fst red) @ lit '', '' @ str_nat (snd red)
                @ lit ''), white=('' @ str_nat (fst white) @ lit '', '' @ str_nat (snd white) @ lit '')'')])
   \<and> (pd e = Some rd
       \<and> rd (Slash root (lit ''data/winequality-red.csv'')) (lit '';'') = Inl msg
      \<longrightarrow> check_data_shapes e root
          = [(lit ''Data shapes (approx UCI)'', FAIL, lit ''Error reading CSVs: '' @ msg)])
   \<and> (pd e = Some rd
       \<and> rd (Slash root (lit ''data/winequality-red.csv'')) (lit '';'') = Inr red
       \<and> rd (Slash root (lit ''data/winequality-white.csv'')) (lit '';'') = Inl msg
      \<longrightarrow> check_data_shapes e root
          = [(lit ''Data shapes (approx UCI)'', FAIL, lit ''Error reading CSVs: '' @ msg)])"
  by (auto simp: check_data_shapes_def Let_def shape_repr_def lit_def)

theorem check_data_shapes_cases_witness:
  "check_data_shapes (text_root True None) (lit ''/proj'')
     = [(lit ''Data shapes (red/white)'', WARN, lit ''pandas not available; cannot verify shapes'')]
   \<and> check_data_shapes (csv_root (Inr (1599, 12)) (Inr (4898, 12))) (lit ''/proj'')
     = [(lit ''Data shapes (approx UCI)'', PASS, lit ''red=(1599, 12), white=(4898, 12)'')]
   \<and> check_data_shapes (csv_root (Inr (1599, 12)) (Inr (4898, 14))) (lit ''/proj'')
     = [(lit ''Data shapes (approx UCI)'', WARN, lit ''red=(1599, 12), white=(4898, 14)'')]
   \<and> check_data_shapes (csv_root (Inl (lit ''No such file'')) (Inr (4898, 12))) (lit ''/proj'')
     = [(lit ''Data shapes (approx UCI)'', FAIL, lit ''Error reading CSVs: No such file'')]
   \<and> check_data_shapes (csv_root (Inr (1599, 12)) (Inl (lit ''No columns to parse''))) (lit ''/proj'')
     = [(lit ''Data shapes (approx UCI)'', FAIL, lit ''Error reading CSVs: No columns to parse'')]"
proof -
  have a: "check_data_shapes (text_root True None) (lit ''/proj'')
     = [(lit ''Data shapes (red/white)'', WARN, lit ''pandas not available; cannot verify shapes'')]"
    using check_data_shapes_cases [of "text_root True None" "lit ''/proj''"]
    by (simp add: text_root_def)
  have b: "check_data_shapes (csv_root (Inr (1599, 12)) (Inr (4898, 12))) (lit ''/proj'')
     = [(lit ''Data shapes (approx UCI)'', PASS, lit ''red=(1599, 12), white=(4898, 12)'')]"
    using check_data_shapes_cases
            [of "csv_root (Inr (1599, 12)) (Inr (4898, 12))" "lit ''/proj''"
                "the (pd (csv_root (Inr (1599, 12)) (Inr (4898, 12))))" "(1599, 12)" "(4898, 12)",
             THEN conjunct2, THEN conjunct1]
    by (simp add: csv_root_def lit_def str_nat.simps)
  have c: "check_data_shapes (csv_root (Inr (1599, 12)) (Inr (4898, 14))) (lit ''/proj'')
     = [(lit ''Data shapes (approx UCI)'', WARN, lit ''red=(1599, 12), white=(4898, 14)'')]"
    using check_data_shapes_cases
            [of "csv_root (Inr (1599, 12)) (Inr (4898, 14))" "lit ''/proj''"
                "the (pd (csv_root (Inr (1599, 12)) (Inr (4898, 14))))" "(1599, 12)" "(4898, 14)",
             THEN conjunct2, THEN conjunct1]
    by (simp add: csv_root_def lit_def str_nat.simps)
  have d: "check_data_shapes (csv_root (Inl (lit ''No such file'')) (Inr (4898, 12))) (lit ''/proj'')
     = [(lit ''Data shapes (approx UCI)'', FAIL, lit ''Error reading CSVs: No such file'')]"
    using check_data_shapes_cases
            [of "csv_root (Inl (lit ''No such file'')) (Inr (4898, 12))" "lit ''/proj''"
                "the (pd (csv_root (Inl (lit ''No such file'')) (Inr (4898, 12))))" _ _
                "lit ''No such file''",
             THEN conjunct2, THEN conjunct2, THEN conjunct1]
    by (simp add: csv_root_def lit_def)
  have e: "check_data_shapes (csv_root (Inr (1599, 12)) (Inl (lit ''No columns to parse''))) (lit ''/proj'')
     = [(lit ''Data shapes (approx UCI)'', FAIL, lit ''Error reading CSVs: No columns to parse'')]"
    using check_data_shapes_cases
            [of "csv_root (Inr (1599, 12)) (Inl (lit ''No columns to parse''))" "lit ''/proj''"
                "the (pd (csv_root (Inr (1599, 12)) (Inl (lit ''No columns to parse''))))"
                "(1599, 12)" _ "lit ''No columns to parse''",
             THEN conjunct2, THEN conjunct2, THEN conjunct2]
    by (simp add: csv_root_def lit_def)
  show ?thesis using a b c d e by simp
qed

subsection \<open>Notebook 02: helpers\<close>

lemma count_in_outputs_filter:
  "count_in_outputs outs cnt = cnt + length (filter is_image outs)"
  by (induction outs arbitrary: cnt) simp_all

lemma count_in_cells_filter:
  "count_in_cells cs cnt = cnt + length (filter is_image (concat (map outputs_or cs)))"
  by (induction cs arbitrary: cnt) (simp_all add: count_in_outputs_filter)

lemma count_image_outputs_filter:
  "count_image_outputs nb = length (filter is_image (concat (map outputs_or (nb_code_cells nb))))"
  by (simp add: count_image_outputs_def count_in_cells_filter)



lemma names_loop_ex:
  "names_loop names code_text trained = (list_ex (contains code_text) names \<or> trained)"
  by (induction names) auto





lemma check_nb02_loaded:
  assumes "load_notebook e (Slash root (lit ''notebooks/02_data_understanding.ipynb'')) = (Some nb, err)"
  shows "check_nb02 e root =
     [(lit ''Notebook 02 loads'', PASS, []),
      (if filter (\<lambda>m. m \<notin> find_strings_in_nb nb must_code [lit ''code'']) (map fst must_code) \<noteq> []
       then (lit ''NB02: Data load + label (0/1) + concat'', WARN,
             lit ''Missing patterns: '' @
               repr_list (filter (\<lambda>m. m \<notin> find_strings_in_nb nb must_code [lit ''code''])
                            (map fst must_code)))
       else (lit ''NB02: Data load + label (0/1) + concat'', PASS, [])),
      (if find_strings_in_nb nb class_vis_hints [lit ''code''] = {} \<or> count_image_outputs nb < 1
       then (lit ''NB02: Class balance figure + output'', WARN,
             lit ''Add a bar/plot of class counts and ensure outputs are saved.'')
       else (lit ''NB02: Class balance figure + output'', PASS,
             lit ''Detected '' @ str_nat (count_image_outputs nb) @ lit '' image outputs.'')),
      (if 2 \<le> count_image_outputs nb
       then (lit ''NB02: >=2 feature visuals present'', PASS,
             lit ''Detected '' @ str_nat (count_image_outputs nb) @ lit '' image outputs.'')
       else (lit ''NB02: >=2 feature visuals present'', WARN,
             lit ''Add at least two feature plots (e.g., boxplots/hist by class).'')),
      (if 2 \<le> interp_in_code (nb_code_cells nb) (interp_in_markdown (nb_markdown_cells nb) 0)
       then (lit ''NB02: Figure interpretations present'', PASS,
             str_nat (interp_in_code (nb_code_cells nb) (interp_in_markdown (nb_markdown_cells nb) 0))
               @ lit '' interpretation notes found.'')
       else (lit ''NB02: Figure interpretations present'', WARN,
             lit ''Add 2'' @ EN_DASH # lit ''3 line interpretations under figures (use the word ''
               @ 39 # lit ''Interpretation'' @ 39 # lit '' to pass this check).'')),
      (if names_loop SKLEARN_CLASS_NAMES (join (lit ''\<newline>'') (map source_or (nb_code_cells nb)))
            (if re_search False FIT_CALL (join (lit ''\<newline>'') (map source_or (nb_code_cells nb)))
             then True else False)
       then (lit ''NB02: No model training appears'', FAIL,
             lit ''Detected model training patterns ('' @ 39 # lit ''.fit('' @ 39 #
               lit '' or classifier names). Move training to Notebook 03.'')
       else (lit ''NB02: No model training appears'', PASS, [])),
      (if has_outputs nb
       then (lit ''NB02: Saved with outputs'', PASS, [])
       else (lit ''NB02: Saved with outputs'', FAIL,
             lit ''Run all cells and save notebook with outputs so GitHub renders figures.''))]"
  using assms
  by (simp add: check_nb02_def Let_def split del: if_split)

subsection \<open>Notebook 02: image outputs and interpretation notes\<close>


lemma is_image_png_output: "is_image png_output"
  by (simp add: is_image_def data_or_def png_output_def)



















subsection \<open>Notebook 02: no training code\<close>













subsection \<open>Report and exit status\<close>

lemma summarize_loop_map:
  "summarize_loop ml ms rs (lines, failures, warnings) =
     (lines @ map (\<lambda>r. ljust (label_of r) ml @ lit ''  '' @ ljust (status_of r) ms @ lit ''  '' @ detail_of r) rs,
      failures + length (filter (\<lambda>r. status_of r = FAIL) rs),
      warnings + length (filter (\<lambda>r. status_of r = WARN) rs))"
proof (induction rs arbitrary: lines failures warnings)
  case Nil
  show ?case by simp
next
  case (Cons r rs)
  obtain l s d where r: "r = (l, s, d)" by (cases r) auto
  show ?case
    unfolding r
    by (simp add: Cons.IH label_of_def status_of_def detail_of_def WARN_neq_FAIL [symmetric])
qed

lemma foldl_max_Max: "foldl max x xs = Max (set (x # xs))"
proof (induction xs arbitrary: x)
  case Nil
  show ?case by simp
next
  case (Cons y ys)
  have "Max (set (max x y # ys)) = Max (set (x # y # ys))"
    by (cases ys) (simp_all add: max.assoc)
  then show ?case by (simp add: Cons.IH del: Max_insert set_simps)
qed

lemma py_max_Max: "xs \<noteq> [] \<Longrightarrow> py_max xs = Inr (Max (set xs))"
  by (cases xs) (simp_all add: foldl_max_Max del: Max_insert set_simps foldl_Cons)

lemma summarize_nonempty:
  assumes "results \<noteq> []"
  shows "summarize now results =
     Inr (lit ''QA Report '' @ EM_DASH # lit '' '' @ now @ lit ''\<newline>''
            @ replicate (length (lit ''QA Report '' @ EM_DASH # lit '' '' @ now)) 45 @ lit ''\<newline>''
            @ join (lit ''\<newline>'')
                (map (\<lambda>r. ljust (label_of r) (Max (set (map (\<lambda>r. length (label_of r)) results)))
                            @ lit ''  ''
                            @ ljust (status_of r) (Max (set (map (\<lambda>r. length (status_of r)) results)))
                            @ lit ''  '' @ detail_of r) results)
            @ lit ''\<newline>Summary: '' @ str_nat (length (filter (\<lambda>r. status_of r = FAIL) results))
            @ lit '' FAIL, '' @ str_nat (length (filter (\<lambda>r. status_of r = WARN) results))
            @ lit '' WARN\<newline>'',
          length (filter (\<lambda>r. status_of r = FAIL) results))"
proof -
  have a: "py_max (map (\<lambda>r. length (fst r)) results)
             = Inr (Max (set (map (\<lambda>r. length (label_of r)) results)))"
    using assms by (simp add: py_max_Max label_of_def del: set_map)
  have b: "py_max (map (\<lambda>r. length (fst (snd r))) results)
             = Inr (Max (set (map (\<lambda>r. length (status_of r)) results)))"
    using assms by (simp add: py_max_Max status_of_def del: set_map)
  show ?thesis
    unfolding summarize_def a b
    by (simp add: summarize_loop_map Let_def del: set_map)
qed

lemma length_ljust: "length s \<le> w \<Longrightarrow> length (ljust s w) = w"
  by (simp add: ljust_def)

lemma all_results_nonempty: "all_results e root \<noteq> []"
  by (simp add: all_results_def check_files_exist_map REQUIRED_FILES_def)

lemma report_has_dash:
  assumes "summarize now results = Inr (report, n)"
  shows "EM_DASH \<in> set report"
proof (cases "results = []")
  case True
  with assms show ?thesis by (simp add: summarize_def)
next
  case False
  from summarize_nonempty [OF False, of now] assms show ?thesis by auto
qed

lemma not_ascii_report:
  assumes "summarize now results = Inr (report, n)"
  shows "\<not> ascii_only report"
proof
  assume "ascii_only report"
  then have "\<forall>c \<in> set report. c < 128"
    by (simp add: ascii_only_def list_all_iff)
  with report_has_dash [OF assms] have "EM_DASH < 128" by blast
  then show False by (simp add: EM_DASH_def)
qed

text \<open>
  C4 (amended). \<open>summarize\<close> returns as its failure count the number of findings whose
  status is FAIL, for every non-empty list of findings, whatever the other statuses are.
  \<open>main\<close> hands it the findings of the six evaluators in their fixed order and gets a
  report. When the standard output accepts the report, \<open>main\<close> prints it and exits with 0
  when none of these findings is FAIL and with 1 otherwise; WARN findings do not enter the
  exit status. When printing the report raises, the process ends with status 1 and no
  report, whatever the findings are. The roots are those of the environment: their
  notebooks, where they load, have cells with a text or no source and a list of outputs
  or none, on which no evaluator raises.
\<close>

theorem main_exit_status:
  "(results \<noteq> []
      \<longrightarrow> (\<exists>report. summarize now results
                       = Inr (report, length (filter (\<lambda>r. status_of r = FAIL) results))))
   \<and> all_results e root
       = check_files_exist e root @ check_gitignore e root @ check_requirements e root
           @ check_nb01 e root @ check_nb02 e root @ check_data_shapes e root
   \<and> (\<exists>report. summarize now (all_results e root)
                  = Inr (report, length (filter (\<lambda>r. status_of r = FAIL) (all_results e root)))
               \<and> main e stdout_accepts now root
                  = (if stdout_accepts report
                     then (Some report,
                           if length (filter (\<lambda>r. status_of r = FAIL) (all_results e root)) = 0
                           then 0 else 1)
                     else (None, 1)))"
proof (intro conjI impI)
  assume "results \<noteq> []"
  then show "\<exists>report. summarize now results
                       = Inr (report, length (filter (\<lambda>r. status_of r = FAIL) results))"
    using summarize_nonempty by blast
next
  show "all_results e root
       = check_files_exist e root @ check_gitignore e root @ check_requirements e root
           @ check_nb01 e root @ check_nb02 e root @ check_data_shapes e root"
    by (simp add: all_results_def)
next
  obtain report where r: "summarize now (all_results e root)
      = Inr (report, length (filter (\<lambda>r. status_of r = FAIL) (all_results e root)))"
    using summarize_nonempty [OF all_results_nonempty] by blast
  then have "main e stdout_accepts now root
      = (if stdout_accepts report
         then (Some report,
               if length (filter (\<lambda>r. status_of r = FAIL) (all_results e root)) = 0 then 0 else 1)
         else (None, 1))"
    by (simp add: main_def)
  with r show "\<exists>report. summarize now (all_results e root)
                  = Inr (report, length (filter (\<lambda>r. status_of r = FAIL) (all_results e root)))
               \<and> main e stdout_accepts now root
                  = (if stdout_accepts report
                     then (Some report,
                           if length (filter (\<lambda>r. status_of r = FAIL) (all_results e root)) = 0
                           then 0 else 1)
                     else (None, 1))"
    by blast
qed

lemma statuses_empty_root:
  "map status_of (all_results (text_root False None) (lit ''/proj''))
     = [FAIL, FAIL, FAIL, FAIL, FAIL, FAIL, FAIL, FAIL, FAIL, FAIL, FAIL, WARN]"
  by (simp add: all_results_def check_files_exist_map REQUIRED_FILES_def exists_finding_def
      check_gitignore_def check_requirements_def check_nb01_def check_nb02_def load_notebook_def
      check_data_shapes_def text_root_def status_of_def)

lemma count_by_status:
  "length (filter (\<lambda>r. status_of r = s) rs) = length (filter (\<lambda>t. t = s) (map status_of rs))"
  by (induction rs) simp_all

lemma statuses_runnable_root:
  "map status_of (all_results runnable_root (lit ''/proj''))
     = [PASS, PASS, PASS, PASS, PASS, PASS, PASS, WARN, WARN,
        PASS, WARN, WARN, PASS,
        PASS, WARN, WARN, WARN, WARN, PASS, PASS,
        WARN]"
proof -
  have nb: "load_notebook runnable_root p = (Some [code_cell [] [png_output]], [])" for p
    by (simp add: load_notebook_def runnable_root_def)
  have f: "map status_of (check_files_exist runnable_root (lit ''/proj'')) = [PASS, PASS, PASS, PASS, PASS, PASS, PASS]"
    by (simp add: check_files_exist_map REQUIRED_FILES_def exists_finding_def runnable_root_def status_of_def)
  have g: "map status_of (check_gitignore runnable_root (lit ''/proj'')) = [WARN]"
    by (simp add: check_gitignore_def load_text_def runnable_root_def status_of_def Let_def
        GITIGNORE_REQUIRED_PATTERNS_def lit_def)
  have r: "map status_of (check_requirements runnable_root (lit ''/proj'')) = [WARN]"
    by (simp add: check_requirements_present load_text_def runnable_root_def status_of_def Let_def
        declared_Nil REQUIREMENTS_SORTED_def)
  have n1: "map status_of (check_nb01 runnable_root (lit ''/proj'')) = [PASS, WARN, WARN, PASS]"
    by (simp add: check_nb01_def nb Let_def find_strings_in_nb_def nb_all_cells_def code_cell_def
        source_or_def must_text_def repro_hints_def has_outputs_def nb_code_cells_def outputs_or_def
        status_of_def lit_def)
  have n2: "map status_of (check_nb02 runnable_root (lit ''/proj'')) = [PASS, WARN, WARN, WARN, WARN, PASS, PASS]"
    by (simp add: check_nb02_loaded [OF nb] find_strings_in_nb_def nb_all_cells_def code_cell_def
        source_or_def must_code_def class_vis_hints_def has_outputs_def nb_code_cells_def
        nb_markdown_cells_def outputs_or_def count_image_outputs_filter is_image_png_output
        has_keyword_def names_loop_ex SKLEARN_CLASS_NAMES_def FIT_CALL_def status_of_def lower_def lit_def)
  have d: "map status_of (check_data_shapes runnable_root (lit ''/proj'')) = [WARN]"
    by (simp add: check_data_shapes_def runnable_root_def status_of_def Let_def)
  show ?thesis
    by (simp add: all_results_def f g r n1 n2 d)
qed

theorem main_exit_status_witness:
  "(\<exists>report. main (text_root False None) (\<lambda>t. True) (lit ''2025-01-01 09:00:00'') (lit ''/proj'')
               = (Some report, 1))
   \<and> (\<exists>report. main runnable_root (\<lambda>t. True) (lit ''2025-01-01 09:00:00'') (lit ''/proj'')
               = (Some report, 0))
   \<and> main runnable_root ascii_only (lit ''2025-01-01 09:00:00'') (lit ''/proj'') = (None, 1)
   \<and> (\<exists>report. summarize (lit ''2025-01-01 09:00:00'') three_findings = Inr (report, 1))"
proof -
  have c: "three_findings \<noteq> []
           \<and> length (filter (\<lambda>r. status_of r = FAIL) three_findings) = 1"
    by (simp add: three_findings_def status_of_def PASS_neq_FAIL WARN_neq_FAIL)
  have a: "length (filter (\<lambda>r. status_of r = FAIL) (all_results (text_root False None) (lit ''/proj''))) = 11"
    by (simp add: count_by_status statuses_empty_root WARN_neq_FAIL)
  have b: "length (filter (\<lambda>r. status_of r = FAIL) (all_results runnable_root (lit ''/proj''))) = 0"
    by (simp add: count_by_status statuses_runnable_root WARN_neq_FAIL PASS_neq_FAIL)
  have w1: "\<exists>report. main (text_root False None) (\<lambda>t. True) (lit ''2025-01-01 09:00:00'') (lit ''/proj'')
               = (Some report, 1)"
    using main_exit_status [of _ "lit ''2025-01-01 09:00:00''" "text_root False None" "lit ''/proj''"
            "\<lambda>t. True", THEN conjunct2, THEN conjunct2]
    unfolding a by auto
  have w2: "\<exists>report. main runnable_root (\<lambda>t. True) (lit ''2025-01-01 09:00:00'') (lit ''/proj'')
               = (Some report, 0)"
    using main_exit_status [of _ "lit ''2025-01-01 09:00:00''" runnable_root "lit ''/proj''"
            "\<lambda>t. True", THEN conjunct2, THEN conjunct2]
    unfolding b by auto
  have w3: "main runnable_root ascii_only (lit ''2025-01-01 09:00:00'') (lit ''/proj'') = (None, 1)"
    using main_exit_status [of _ "lit ''2025-01-01 09:00:00''" runnable_root "lit ''/proj''"
            ascii_only, THEN conjunct2, THEN conjunct2]
    by (auto dest: not_ascii_report)
  have w4: "\<exists>report. summarize (lit ''2025-01-01 09:00:00'') three_findings = Inr (report, 1)"
    using main_exit_status [of three_findings "lit ''2025-01-01 09:00:00''", THEN conjunct1] c
    by simp
  show ?thesis using w1 w2 w3 w4 by blast
qed

text \<open>
  The claim as the specification words it makes the exit status 0 whenever no finding is
  FAIL. The header of the report holds the dash U+2014; on a standard output that takes
  ASCII only, \<open>print\<close> raises, and the process ends with status 1 although no finding of
  this root is FAIL.
\<close>

theorem main_exit_status_counterexample:
  "count_status FAIL (all_results runnable_root (lit ''/proj'')) = 0
   \<and> main runnable_root ascii_only (lit ''2025-01-01 09:00:00'') (lit ''/proj'') = (None, 1)"
proof -
  have b: "count_status FAIL (all_results runnable_root (lit ''/proj'')) = 0"
    by (simp add: count_status_def count_by_status statuses_runnable_root WARN_neq_FAIL PASS_neq_FAIL)
  obtain report n where r: "summarize (lit ''2025-01-01 09:00:00'') (all_results runnable_root (lit ''/proj''))
      = Inr (report, n)"
    using summarize_nonempty [OF all_results_nonempty] by blast
  then have "main runnable_root ascii_only (lit ''2025-01-01 09:00:00'') (lit ''/proj'') = (None, 1)"
    by (simp add: main_def not_ascii_report [OF r])
  with b show ?thesis by simp
qed

lemma split_where_append:
  "\<forall>c \<in> set a. \<not> p c \<Longrightarrow> p c \<Longrightarrow> split_where p (a @ c # b) = a # split_where p b"
  by (induction a) auto

lemma split_join:
  "lines \<noteq> [] \<Longrightarrow> \<forall>l \<in> set lines. \<forall>c \<in> set l. \<not> p c \<Longrightarrow> p s \<Longrightarrow>
   split_where p (join [s] lines @ s # rest) = lines @ split_where p rest"
proof (induction "[s]" lines rule: join.induct)
  case 1
  then show ?case by simp
next
  case (2 x)
  then show ?case by (simp add: split_where_append)
next
  case (3 x y ys)
  have "split_where p (x @ s # (join [s] (y # ys) @ s # rest))
          = x # split_where p (join [s] (y # ys) @ s # rest)"
    using 3 by (intro split_where_append) auto
  then show ?case using 3 by simp
qed

lemma str_nat_digits: "c \<in> set (str_nat n) \<Longrightarrow> 48 \<le> c \<and> c \<le> 57"
proof (induction n rule: str_nat.induct)
  case (1 n)
  show ?case
  proof (cases "n < 10")
    case True
    with 1 show ?thesis by (simp add: str_nat.simps [of n])
  next
    case False
    with 1 show ?thesis by (auto simp: str_nat.simps [of n])
  qed
qed

lemma newline_lit: "lit ''\<newline>'' = [10]"
  by (simp add: lit_def)

lemma summary_split1: "lit ''\<newline>Summary: '' = lit ''\<newline>'' @ lit ''Summary: ''"
  by (simp add: lit_def)

lemma summary_split2: "lit '' WARN\<newline>'' = lit '' WARN'' @ lit ''\<newline>''"
  by (simp add: lit_def)

text \<open>
  C5 (amended). For every non-empty list of findings, \<open>summarize\<close> returns the report made of
  the header, a newline, dashes of the header's length, a newline, the rows of the findings
  joined by newlines in the order of the input, a newline, the summary and a newline. The
  row of a finding is its label padded to the length of the longest label, two spaces, its
  status padded to the length of the longest status, two spaces, and its detail. The
  summary counts the FAIL and the WARN findings. When, moreover, neither the time stamp nor
  the label, status or detail of any finding contains a newline, the lines of the report
  are exactly the header, the dashes, one line per finding in the order of the input, and
  the summary line. A field with a newline spreads its row over several lines.
\<close>

theorem summarize_report:
  "results \<noteq> [] \<longrightarrow>
     (let max_label = Max (set (map (\<lambda>r. length (label_of r)) results));
          max_status = Max (set (map (\<lambda>r. length (status_of r)) results));
          lines = map (\<lambda>r. ljust (label_of r) max_label @ lit ''  ''
                              @ ljust (status_of r) max_status @ lit ''  '' @ detail_of r) results;
          header = lit ''QA Report '' @ EM_DASH # lit '' '' @ now;
          summary = lit ''Summary: '' @ str_nat (length (filter (\<lambda>r. status_of r = FAIL) results))
                      @ lit '' FAIL, '' @ str_nat (length (filter (\<lambda>r. status_of r = WARN) results))
                      @ lit '' WARN'';
          report = header @ lit ''\<newline>'' @ replicate (length header) 45 @ lit ''\<newline>''
                     @ join (lit ''\<newline>'') lines @ lit ''\<newline>'' @ summary @ lit ''\<newline>''
      in summarize now results = Inr (report, length (filter (\<lambda>r. status_of r = FAIL) results))
         \<and> length lines = length results
         \<and> (\<forall>r \<in> set results. length (ljust (label_of r) max_label) = max_label
                                 \<and> length (ljust (status_of r) max_status) = max_status)
         \<and> (10 \<notin> set now
              \<and> (\<forall>r \<in> set results. 10 \<notin> set (label_of r) \<and> 10 \<notin> set (status_of r)
                                      \<and> 10 \<notin> set (detail_of r))
             \<longrightarrow> split_where (\<lambda>c. c = 10) report
                   = [header, replicate (length header) 45] @ lines @ [summary, []]))"
proof
  assume ne: "results \<noteq> []"
  define max_label where "max_label = Max (set (map (\<lambda>r. length (label_of r)) results))"
  define max_status where "max_status = Max (set (map (\<lambda>r. length (status_of r)) results))"
  define lines where "lines = map (\<lambda>r. ljust (label_of r) max_label @ lit ''  ''
                              @ ljust (status_of r) max_status @ lit ''  '' @ detail_of r) results"
  define header where "header = lit ''QA Report '' @ EM_DASH # lit '' '' @ now"
  define summary where "summary = lit ''Summary: '' @ str_nat (length (filter (\<lambda>r. status_of r = FAIL) results))
                      @ lit '' FAIL, '' @ str_nat (length (filter (\<lambda>r. status_of r = WARN) results))
                      @ lit '' WARN''"
  define report where "report = header @ lit ''\<newline>'' @ replicate (length header) 45 @ lit ''\<newline>''
                     @ join (lit ''\<newline>'') lines @ lit ''\<newline>'' @ summary @ lit ''\<newline>''"
  have s: "summarize now results = Inr (report, length (filter (\<lambda>r. status_of r = FAIL) results))"
    unfolding report_def header_def summary_def lines_def max_label_def max_status_def
    using summarize_nonempty [OF ne, of now] by (simp add: summary_split1 summary_split2)
  have l: "length lines = length results"
    by (simp add: lines_def)
  have w: "\<forall>r \<in> set results. length (ljust (label_of r) max_label) = max_label
                                 \<and> length (ljust (status_of r) max_status) = max_status"
  proof
    fix r assume r: "r \<in> set results"
    then have "length (label_of r) \<le> max_label" "length (status_of r) \<le> max_status"
      unfolding max_label_def max_status_def by (auto intro!: Max_ge)
    then show "length (ljust (label_of r) max_label) = max_label
                 \<and> length (ljust (status_of r) max_status) = max_status"
      by (simp add: length_ljust)
  qed
  have sp: "split_where (\<lambda>c. c = 10) report
              = [header, replicate (length header) 45] @ lines @ [summary, []]"
    if h: "10 \<notin> set now
              \<and> (\<forall>r \<in> set results. 10 \<notin> set (label_of r) \<and> 10 \<notin> set (status_of r)
                                      \<and> 10 \<notin> set (detail_of r))"
  proof -
    have hd: "\<forall>c \<in> set header. \<not> c = 10"
      using h by (auto simp: header_def lit_def EM_DASH_def)
    have sm: "\<forall>c \<in> set summary. \<not> c = 10"
      by (auto simp: summary_def lit_def dest: str_nat_digits)
    have ln: "\<forall>l \<in> set lines. \<forall>c \<in> set l. \<not> c = 10"
      using h by (auto simp: lines_def ljust_def lit_def)
    have lne: "lines \<noteq> []"
      using ne by (simp add: lines_def)
    have r: "report = header @ 10 # (replicate (length header) 45 @ 10 #
                        (join [10] lines @ 10 # (summary @ 10 # [])))"
      by (simp add: report_def newline_lit)
    have "split_where (\<lambda>c. c = 10) (summary @ 10 # []) = [summary, []]"
      using sm by (simp add: split_where_append)
    then have "split_where (\<lambda>c. c = 10) (join [10] lines @ 10 # (summary @ 10 # []))
                 = lines @ [summary, []]"
      using split_join [of lines "\<lambda>c. c = 10" 10 "summary @ 10 # []"] lne ln by simp
    then have "split_where (\<lambda>c. c = 10) (replicate (length header) 45 @ 10 #
                 (join [10] lines @ 10 # (summary @ 10 # [])))
                 = replicate (length header) 45 # lines @ [summary, []]"
      by (subst split_where_append) simp_all
    then show ?thesis
      unfolding r using hd by (subst split_where_append) simp_all
  qed
  show "let max_label = Max (set (map (\<lambda>r. length (label_of r)) results));
          max_status = Max (set (map (\<lambda>r. length (status_of r)) results));
          lines = map (\<lambda>r. ljust (label_of r) max_label @ lit ''  ''
                              @ ljust (status_of r) max_status @ lit ''  '' @ detail_of r) results;
          header = lit ''QA Report '' @ EM_DASH # lit '' '' @ now;
          summary = lit ''Summary: '' @ str_nat (length (filter (\<lambda>r. status_of r = FAIL) results))
                      @ lit '' FAIL, '' @ str_nat (length (filter (\<lambda>r. status_of r = WARN) results))
                      @ lit '' WARN'';
          report = header @ lit ''\<newline>'' @ replicate (length header) 45 @ lit ''\<newline>''
                     @ join (lit ''\<newline>'') lines @ lit ''\<newline>'' @ summary @ lit ''\<newline>''
      in summarize now results = Inr (report, length (filter (\<lambda>r. status_of r = FAIL) results))
         \<and> length lines = length results
         \<and> (\<forall>r \<in> set results. length (ljust (label_of r) max_label) = max_label
                                 \<and> length (ljust (status_of r) max_status) = max_status)
         \<and> (10 \<notin> set now
              \<and> (\<forall>r \<in> set results. 10 \<notin> set (label_of r) \<and> 10 \<notin> set (status_of r)
                                      \<and> 10 \<notin> set (detail_of r))
             \<longrightarrow> split_where (\<lambda>c. c = 10) report
                   = [header, replicate (length header) 45] @ lines @ [summary, []])"
    unfolding Let_def
    using s l w sp
    unfolding report_def header_def summary_def lines_def max_label_def max_status_def
    by blast
qed

lemma replicate_numeral: "replicate (numeral k) x = x # replicate (pred_numeral k) x"
  by (simp add: numeral_eq_Suc)

text \<open>
  For the empty list of findings \<open>max\<close> raises \<open>ValueError\<close>, and \<open>summarize\<close> returns no
  report; \<open>main\<close> never calls it so, as \<open>check_files_exist\<close> alone gives seven findings. And
  one finding whose detail has a newline gives two body lines, not one.
\<close>

theorem summarize_report_counterexample:
  "summarize [] [] = Inl ValueError
   \<and> report_lines (summarize (lit ''2025-01-01 09:00:00'') finding_with_newline)
     = Inr [lit ''QA Report '' @ EM_DASH # lit '' 2025-01-01 09:00:00'',
            lit ''-------------------------------'',
            lit ''Data shapes  FAIL  Error: bad'',
            lit ''line'',
            lit ''Summary: 1 FAIL, 0 WARN'',
            []]"
proof -
  have ne: "finding_with_newline \<noteq> []"
    by (simp add: finding_with_newline_def)
  have "report_lines (summarize (lit ''2025-01-01 09:00:00'') finding_with_newline)
     = Inr [lit ''QA Report '' @ EM_DASH # lit '' 2025-01-01 09:00:00'',
            lit ''-------------------------------'',
            lit ''Data shapes  FAIL  Error: bad'',
            lit ''line'',
            lit ''Summary: 1 FAIL, 0 WARN'',
            []]"
    unfolding summarize_nonempty [OF ne]
    by (simp add: report_lines_def finding_with_newline_def label_of_def status_of_def detail_of_def
        FAIL_def WARN_def ljust_def str_nat.simps lit_def EM_DASH_def replicate_numeral)
  then show ?thesis by (simp add: summarize_def)
qed

lemma three_findings_widths:
  "Max (set (map (\<lambda>r. length (label_of r)) three_findings)) = 17"
  "Max (set (map (\<lambda>r. length (status_of r)) three_findings)) = 4"
  by (simp_all add: three_findings_def label_of_def status_of_def PASS_def WARN_def FAIL_def lit_def)

lemma three_findings_counts:
  "length (filter (\<lambda>r. status_of r = FAIL) three_findings) = 1"
  "length (filter (\<lambda>r. status_of r = WARN) three_findings) = 1"
  by (simp_all add: three_findings_def status_of_def PASS_neq_FAIL WARN_neq_FAIL PASS_neq_WARN
      WARN_neq_FAIL [symmetric])

theorem summarize_report_witness:
  "summarize (lit ''2025-01-01 09:00:00'') three_findings
     = Inr (lit ''QA Report '' @ EM_DASH #
              lit '' 2025-01-01 09:00:00\<newline>-------------------------------\<newline>Exists: README.md  FAIL  Missing README.md\<newline>gitignore          WARN  Add patterns: venv/\<newline>ok                 PASS  \<newline>Summary: 1 FAIL, 1 WARN\<newline>'',
            1)
   \<and> split_where (\<lambda>c. c = 10)
        (lit ''QA Report '' @ EM_DASH #
              lit '' 2025-01-01 09:00:00\<newline>-------------------------------\<newline>Exists: README.md  FAIL  Missing README.md\<newline>gitignore          WARN  Add patterns: venv/\<newline>ok                 PASS  \<newline>Summary: 1 FAIL, 1 WARN\<newline>'')
     = [lit ''QA Report '' @ EM_DASH # lit '' 2025-01-01 09:00:00'',
        lit ''-------------------------------'',
        lit ''Exists: README.md  FAIL  Missing README.md'',
        lit ''gitignore          WARN  Add patterns: venv/'',
        lit ''ok                 PASS  '',
        lit ''Summary: 1 FAIL, 1 WARN'',
        []]"
proof -
  have ne: "three_findings \<noteq> []"
    by (simp add: three_findings_def)
  have nl: "10 \<notin> set (lit ''2025-01-01 09:00:00'')
            \<and> (\<forall>r \<in> set three_findings. 10 \<notin> set (label_of r) \<and> 10 \<notin> set (status_of r)
                                          \<and> 10 \<notin> set (detail_of r))"
    by (simp add: three_findings_def label_of_def status_of_def detail_of_def PASS_def WARN_def
        FAIL_def lit_def)
  note t = summarize_report [of three_findings "lit ''2025-01-01 09:00:00''", THEN mp, OF ne,
             unfolded Let_def three_findings_widths three_findings_counts]
  have a: "summarize (lit ''2025-01-01 09:00:00'') three_findings
     = Inr (lit ''QA Report '' @ EM_DASH #
              lit '' 2025-01-01 09:00:00\<newline>-------------------------------\<newline>Exists: README.md  FAIL  Missing README.md\<newline>gitignore          WARN  Add patterns: venv/\<newline>ok                 PASS  \<newline>Summary: 1 FAIL, 1 WARN\<newline>'',
            1)"
    using t [THEN conjunct1]
    by (simp add: three_findings_def label_of_def status_of_def detail_of_def PASS_def WARN_def
        FAIL_def ljust_def str_nat.simps lit_def replicate_numeral)
  have b: "split_where (\<lambda>c. c = 10)
        (lit ''QA Report '' @ EM_DASH #
              lit '' 2025-01-01 09:00:00\<newline>-------------------------------\<newline>Exists: README.md  FAIL  Missing README.md\<newline>gitignore          WARN  Add patterns: venv/\<newline>ok                 PASS  \<newline>Summary: 1 FAIL, 1 WARN\<newline>'')
     = [lit ''QA Report '' @ EM_DASH # lit '' 2025-01-01 09:00:00'',
        lit ''-------------------------------'',
        lit ''Exists: README.md  FAIL  Missing README.md'',
        lit ''gitignore          WARN  Add patterns: venv/'',
        lit ''ok                 PASS  '',
        lit ''Summary: 1 FAIL, 1 WARN'',
        []]"
    using t [THEN conjunct2, THEN conjunct2, THEN conjunct2, THEN mp, OF nl]
    by (simp add: three_findings_def label_of_def status_of_def detail_of_def PASS_def WARN_def
        FAIL_def ljust_def str_nat.simps lit_def replicate_numeral del: split_where.simps)
  show ?thesis using a b by blast
qed

subsection \<open>Dependencies\<close>

lemma split_first_name:
  "61 \<notin> set name \<Longrightarrow> pin = [] \<or> startswith pin (lit ''=='') \<Longrightarrow>
   split_first (lit ''=='') (name @ pin) = name"
proof (induction name)
  case Nil
  then show ?case by (cases pin) (auto simp: lit_def)
next
  case (Cons c cs)
  then have "\<not> startswith (c # cs @ pin) (lit ''=='')" by (simp add: lit_def)
  with Cons show ?case by simp
qed

lemma declared_iff:
  "name \<in> declared text \<longleftrightarrow>
     (\<exists>line \<in> set (splitlines text).
        strip line \<noteq> [] \<and> \<not> startswith (strip line) (lit ''#'')
        \<and> name = lower (split_first (lit ''=='') (strip line)))"
  by (auto simp: declared_def)

text \<open>
  C2 (amended). \<open>check_requirements\<close> returns one finding. It is FAIL when
  \<open>requirements.txt\<close> does not exist. Otherwise the declared names are, for every line of
  the text that is not blank and whose stripped form does not start with \<open>#\<close>, what stands
  before the first \<open>==\<close> of the stripped line, lower-cased, with nothing else removed. The
  finding is PASS when each of the five dependencies is a declared name, and otherwise WARN
  with the detail \<open>Missing:\<close> followed by exactly the dependencies that are not declared,
  sorted. A line whose stripped form is a name, in any letter case, alone or directly
  followed by \<open>==\<close> and a version, declares the lower-cased name.
\<close>

theorem check_requirements_coverage:
  "(\<not> exists e (Slash root (lit ''requirements.txt''))
      \<longrightarrow> check_requirements e root
          = [(lit ''requirements.txt present'', FAIL, lit ''requirements.txt not found'')])
   \<and> (exists e (Slash root (lit ''requirements.txt''))
      \<longrightarrow> check_requirements e root
          = (let missing = filter (\<lambda>d. d \<notin> declared (load_text e (Slash root (lit ''requirements.txt''))))
                             [lit ''matplotlib'', lit ''numpy'', lit ''pandas'', lit ''scikit-learn'',
                              lit ''seaborn'']
             in if missing = []
                then [(lit ''requirements includes minimal deps'', PASS, [])]
                else [(lit ''requirements includes minimal deps'', WARN,
                       lit ''Missing: '' @ join (lit '', '') missing)]))
   \<and> (name \<in> declared text \<longleftrightarrow>
         (\<exists>line \<in> set (splitlines text).
            strip line \<noteq> [] \<and> \<not> startswith (strip line) (lit ''#'')
            \<and> name = lower (split_first (lit ''=='') (strip line))))
   \<and> (line \<in> set (splitlines text) \<and> strip line = name @ pin
        \<and> name \<noteq> [] \<and> 61 \<notin> set name \<and> \<not> startswith name (lit ''#'')
        \<and> (pin = [] \<or> startswith pin (lit ''==''))
      \<longrightarrow> lower name \<in> declared text)"
proof (intro conjI impI)
  assume "\<not> exists e (Slash root (lit ''requirements.txt''))"
  then show "check_requirements e root
          = [(lit ''requirements.txt present'', FAIL, lit ''requirements.txt not found'')]"
    by (simp add: check_requirements_def)
next
  assume "exists e (Slash root (lit ''requirements.txt''))"
  then show "check_requirements e root
          = (let missing = filter (\<lambda>d. d \<notin> declared (load_text e (Slash root (lit ''requirements.txt''))))
                             [lit ''matplotlib'', lit ''numpy'', lit ''pandas'', lit ''scikit-learn'',
                              lit ''seaborn'']
             in if missing = []
                then [(lit ''requirements includes minimal deps'', PASS, [])]
                else [(lit ''requirements includes minimal deps'', WARN,
                       lit ''Missing: '' @ join (lit '', '') missing)])"
    using check_requirements_present [of e root] unfolding REQUIREMENTS_SORTED_def by blast
next
  show "name \<in> declared text \<longleftrightarrow>
         (\<exists>line \<in> set (splitlines text).
            strip line \<noteq> [] \<and> \<not> startswith (strip line) (lit ''#'')
            \<and> name = lower (split_first (lit ''=='') (strip line)))"
    by (rule declared_iff)
next
  assume h: "line \<in> set (splitlines text) \<and> strip line = name @ pin
        \<and> name \<noteq> [] \<and> 61 \<notin> set name \<and> \<not> startswith name (lit ''#'')
        \<and> (pin = [] \<or> startswith pin (lit ''==''))"
  then have sf: "split_first (lit ''=='') (strip line) = name"
    by (simp add: split_first_name)
  from h obtain c cs where "name = c # cs" by (cases name) auto
  with h have "strip line \<noteq> []" "\<not> startswith (strip line) (lit ''#'')"
    by (auto simp: lit_def)
  with h sf show "lower name \<in> declared text"
    unfolding declared_iff by blast
qed

lemma declared_manifest_all:
  "declared manifest_all
     = set [lit ''pandas'', lit ''numpy'', lit ''scikit-learn'', lit ''matplotlib'', lit ''seaborn'']"
  by (simp add: declared_def manifest_all_def splitlines_def strip_def isspace_def is_linebreak_def
      lower_def lower_cp_def lit_def)

lemma declared_manifest_partial:
  "declared manifest_partial = set [lit ''pandas'', lit ''scikit-learn'', lit ''matplotlib'']"
  by (simp add: declared_def manifest_partial_def splitlines_def strip_def isspace_def is_linebreak_def
      lower_def lower_cp_def lit_def)

lemma declared_manifest_spaced_pin:
  "declared manifest_spaced_pin
     = set [lit ''pandas '', lit ''numpy'', lit ''scikit-learn'', lit ''matplotlib'', lit ''seaborn'']"
  by (simp add: declared_def manifest_spaced_pin_def splitlines_def strip_def isspace_def is_linebreak_def
      lower_def lower_cp_def lit_def)

lemma declared_manifest_range_pin:
  "declared manifest_range_pin
     = set [lit ''pandas>=2.1.0'', lit ''numpy'', lit ''scikit-learn'', lit ''matplotlib'', lit ''seaborn'']"
  by (simp add: declared_def manifest_range_pin_def splitlines_def strip_def isspace_def is_linebreak_def
      lower_def lower_cp_def lit_def)

lemma declared_manifest_kelvin:
  "declared manifest_kelvin
     = set [lit ''pandas'', lit ''numpy'', lit ''scikit-learn'', lit ''matplotlib'', lit ''seaborn'']"
  by (simp add: declared_def manifest_kelvin_def splitlines_def strip_def isspace_def is_linebreak_def
      lower_def lower_cp_def lit_def)

lemma load_text_root: "load_text (text_root present (Some t)) p = t"
  by (simp add: load_text_def text_root_def)

theorem check_requirements_coverage_witness:
  "check_requirements (text_root False None) (lit ''/proj'')
     = [(lit ''requirements.txt present'', FAIL, lit ''requirements.txt not found'')]
   \<and> check_requirements (text_root True (Some manifest_all)) (lit ''/proj'')
     = [(lit ''requirements includes minimal deps'', PASS, [])]
   \<and> check_requirements (text_root True (Some manifest_partial)) (lit ''/proj'')
     = [(lit ''requirements includes minimal deps'', WARN, lit ''Missing: numpy, seaborn'')]
   \<and> lit ''pandas'' \<in> declared manifest_all
   \<and> check_requirements (text_root True (Some manifest_kelvin)) (lit ''/proj'')
     = [(lit ''requirements includes minimal deps'', PASS, [])]"
proof -
  have k: "check_requirements (text_root True (Some manifest_kelvin)) (lit ''/proj'')
     = [(lit ''requirements includes minimal deps'', PASS, [])]"
    using check_requirements_coverage [of "text_root True (Some manifest_kelvin)" "lit ''/proj''",
            THEN conjunct2, THEN conjunct1]
    unfolding load_text_root declared_manifest_kelvin
    by (simp add: text_root_def)
  have d1: "lit ''Pandas==2.1.0'' \<in> set (splitlines manifest_all)"
    by (simp add: manifest_all_def splitlines_def is_linebreak_def lit_def)
  have d2: "strip (lit ''Pandas==2.1.0'') = lit ''Pandas'' @ lit ''==2.1.0''"
    by (simp add: strip_def isspace_def lit_def)
  have d3: "lit ''Pandas'' \<noteq> [] \<and> 61 \<notin> set (lit ''Pandas'') \<and> \<not> startswith (lit ''Pandas'') (lit ''#'')
            \<and> startswith (lit ''==2.1.0'') (lit ''=='')"
    by (simp add: lit_def)
  have d4: "lower (lit ''Pandas'') = lit ''pandas''"
    by (simp add: lower_def lower_cp_def lit_def)
  have d: "lit ''pandas'' \<in> declared manifest_all"
    using check_requirements_coverage
            [of _ _ "lit ''Pandas''" manifest_all "lit ''Pandas==2.1.0''" "lit ''==2.1.0''",
             THEN conjunct2, THEN conjunct2, THEN conjunct2]
          d1 d2 d3
    unfolding d4 by blast
  have a: "check_requirements (text_root False None) (lit ''/proj'')
     = [(lit ''requirements.txt present'', FAIL, lit ''requirements.txt not found'')]"
    using check_requirements_coverage [of "text_root False None" "lit ''/proj''", THEN conjunct1]
    by (simp add: text_root_def)
  have b: "check_requirements (text_root True (Some manifest_all)) (lit ''/proj'')
     = [(lit ''requirements includes minimal deps'', PASS, [])]"
    using check_requirements_coverage [of "text_root True (Some manifest_all)" "lit ''/proj''",
            THEN conjunct2, THEN conjunct1]
    unfolding load_text_root declared_manifest_all
    by (simp add: text_root_def)
  have c: "check_requirements (text_root True (Some manifest_partial)) (lit ''/proj'')
     = [(lit ''requirements includes minimal deps'', WARN, lit ''Missing: numpy, seaborn'')]"
    using check_requirements_coverage [of "text_root True (Some manifest_partial)" "lit ''/proj''",
            THEN conjunct2, THEN conjunct1]
    unfolding load_text_root declared_manifest_partial
    by (simp add: text_root_def lit_def)
  show ?thesis using a b c d k by blast
qed

text \<open>
  The claim as the specification words it promises PASS for every manifest that lists
  the five dependencies with or without version pins. With \<open>pandas == 2.1.0\<close> the declared
  name is \<open>pandas\<close> followed by a space, and with \<open>pandas>=2.1.0\<close> it is the whole line:
  both manifests get WARN with \<open>Missing: pandas\<close>.
\<close>

theorem check_requirements_coverage_counterexample:
  "check_requirements (text_root True (Some manifest_spaced_pin)) (lit ''/proj'')
     = [(lit ''requirements includes minimal deps'', WARN, lit ''Missing: pandas'')]
   \<and> check_requirements (text_root True (Some manifest_range_pin)) (lit ''/proj'')
     = [(lit ''requirements includes minimal deps'', WARN, lit ''Missing: pandas'')]"
proof -
  have e: "exists (text_root True c) p" for c p
    by (simp add: text_root_def)
  show ?thesis
    unfolding check_requirements_present [OF e] load_text_root declared_manifest_spaced_pin
      declared_manifest_range_pin REQUIREMENTS_SORTED_def
    by (simp add: lit_def)
qed

end
